theory Spec2Isabelle
  imports Complex_Main
begin

section \<open>Numbers, vectors and containers\<close>

text \<open>
  The program computes in C++ \<^verbatim>\<open>float\<close>. The model computes in the real numbers: rounding
  is not modelled, so an equation between vectors below is an equation of the exact
  values the floating-point code approximates. \<^verbatim>\<open>int\<close> values are integers (the theorems
  state the 32-bit range where it matters) and \<^verbatim>\<open>size_t\<close> values are integers modulo
  \<open>2 ^ 64\<close>, with the conversion written out.
\<close>

text \<open>
  Modelled from the spec: \<^verbatim>\<open>RVO::Vector2\<close> and its operators are not in the source file.
  The estimate is \<open>(position[tick + 1] - position[tick]) / dt\<close> and the speed of a record is
  the Euclidean norm of its velocity.
\<close>

type_synonym Vector2 = "real \<times> real"

definition vec_sub :: "Vector2 \<Rightarrow> Vector2 \<Rightarrow> Vector2" where
  "vec_sub a b = (fst a - fst b, snd a - snd b)"

definition vec_div :: "Vector2 \<Rightarrow> real \<Rightarrow> Vector2" where
  "vec_div a d = (fst a / d, snd a / d)"

definition vec_abs :: "Vector2 \<Rightarrow> real" where
  "vec_abs v = sqrt (fst v * fst v + snd v * snd v)"

definition TIME_STEP :: real where "TIME_STEP = 1 / 90"

definition NEIGHBOR_DIST :: real where "NEIGHBOR_DIST = 15"

definition MAX_NEIGHBORS :: int where "MAX_NEIGHBORS = 10"

definition TIME_HORIZON :: real where "TIME_HORIZON = 10"

definition TIME_HORIZON_OBST :: real where "TIME_HORIZON_OBST = 10"

definition RADIUS :: real where "RADIUS = 1 / 2"

definition MAX_SPEED :: real where "MAX_SPEED = 2"

definition MIN_X :: real where "MIN_X = 10"

definition MIN_Y :: real where "MIN_Y = 10"

definition MAX_X :: real where "MAX_X = 100"

definition MAX_Y :: real where "MAX_Y = 100"

datatype error = OutOfBounds | InvalidHandle

text \<open>The conversion of an \<^verbatim>\<open>int\<close> to \<^verbatim>\<open>size_t\<close> (64 bits, unsigned).\<close>

definition to_size_t :: "int \<Rightarrow> int" where
  "to_size_t i = i mod 2 ^ 64"

definition vec_size :: "'a list \<Rightarrow> int" where
  "vec_size xs = int (length xs)"

text \<open>
  \<^verbatim>\<open>std::vector::operator[]\<close>: the index is converted to \<^verbatim>\<open>size_t\<close>; a read past the end is
  undefined behaviour in C++ and the error \<open>OutOfBounds\<close> here.
\<close>

definition vec_at :: "'a list \<Rightarrow> int \<Rightarrow> error + 'a" where
  "vec_at xs i =
     (let k = to_size_t i
      in if k < vec_size xs then Inr (xs ! nat k) else Inl OutOfBounds)"

section \<open>The avoidance oracle\<close>

text \<open>
  \<^verbatim>\<open>RVO::RVOSimulator\<close> is not in the source file: the driver uses it through its
  interface only, and the operations below follow the interface as the specification
  gives it. The state of the oracle is the list of the registered agents, indexed by
  handle, and the list of the calls it has received.
\<close>

record Agent =
  position :: Vector2
  velocity :: Vector2
  prefVelocity :: Vector2
  maxSpeed :: real

datatype Call =
    SetTimeStep real
  | SetAgentDefaults real int real real real real
  | AddAgent Vector2
  | SetAgentMaxSpeed nat real
  | SetAgentPrefVelocity nat Vector2
  | DoStep

record RVOSimulator =
  timeStep :: real
  defaultMaxSpeed :: real
  agents :: "Agent list"
  calls :: "Call list"

text \<open>
  What one advance does to an agent is the oracle's business: it is a parameter, a
  function of the time step, of all agents' states before the advance and of the agent's
  handle, giving the agent's new position and velocity.
\<close>

type_synonym Advance = "real \<Rightarrow> Agent list \<Rightarrow> nat \<Rightarrow> Vector2 \<times> Vector2"

text \<open>Modelled from the spec: the constructor of the oracle; a new oracle has no agent.\<close>

definition RVOSimulator_new :: RVOSimulator where
  "RVOSimulator_new = \<lparr>timeStep = 0, defaultMaxSpeed = 0, agents = [], calls = []\<rparr>"

text \<open>Modelled from the spec: configure sets the simulation-wide time step.\<close>

definition setTimeStep :: "real \<Rightarrow> RVOSimulator \<Rightarrow> RVOSimulator" where
  "setTimeStep dt r = r\<lparr>timeStep := dt, calls := calls r @ [SetTimeStep dt]\<rparr>"

text \<open>
  Modelled from the spec: configure sets the defaults of the agents registered later; of
  these the model keeps the maximum speed.
\<close>

definition setAgentDefaults ::
  "real \<Rightarrow> int \<Rightarrow> real \<Rightarrow> real \<Rightarrow> real \<Rightarrow> real \<Rightarrow> RVOSimulator \<Rightarrow> RVOSimulator" where
  "setAgentDefaults nd mn th tho rad ms r =
     r\<lparr>defaultMaxSpeed := ms, calls := calls r @ [SetAgentDefaults nd mn th tho rad ms]\<rparr>"

text \<open>
  Modelled from the spec: registerAgent returns handles that are dense and assigned in
  call order starting at 0. The new agent is at rest at the given position.
\<close>

definition addAgent :: "Vector2 \<Rightarrow> RVOSimulator \<Rightarrow> nat \<times> RVOSimulator" where
  "addAgent p r =
     (length (agents r),
      r\<lparr>agents := agents r @
            [\<lparr>position = p, velocity = (0, 0), prefVelocity = (0, 0),
              maxSpeed = defaultMaxSpeed r\<rparr>],
        calls := calls r @ [AddAgent p]\<rparr>)"

text \<open>
  Modelled from the spec: setMaxSpeed(handle, value). A handle the oracle never returned
  is outside its contract (RVO2 indexes its agent vector unchecked): the error
  \<open>InvalidHandle\<close>.
\<close>

definition setAgentMaxSpeed :: "nat \<Rightarrow> real \<Rightarrow> RVOSimulator \<Rightarrow> error + RVOSimulator" where
  "setAgentMaxSpeed h v r =
     (if h < length (agents r)
      then Inr (r\<lparr>agents := (agents r)[h := (agents r ! h)\<lparr>maxSpeed := v\<rparr>],
                 calls := calls r @ [SetAgentMaxSpeed h v]\<rparr>)
      else Inl InvalidHandle)"

text \<open>Modelled from the spec: setPreferredVelocity(handle, velocity).\<close>

definition setAgentPrefVelocity :: "nat \<Rightarrow> Vector2 \<Rightarrow> RVOSimulator \<Rightarrow> error + RVOSimulator" where
  "setAgentPrefVelocity h v r =
     (if h < length (agents r)
      then Inr (r\<lparr>agents := (agents r)[h := (agents r ! h)\<lparr>prefVelocity := v\<rparr>],
                 calls := calls r @ [SetAgentPrefVelocity h v]\<rparr>)
      else Inl InvalidHandle)"

text \<open>
  Modelled from the spec: advance() advances all agents by one time step; the oracle owns
  positions and velocities, and agents are neither added nor removed. An advance leaves
  the preferred velocity and the maximum speed of an agent as they were set.
\<close>

definition advance_agent :: "Advance \<Rightarrow> real \<Rightarrow> Agent list \<Rightarrow> nat \<Rightarrow> Agent" where
  "advance_agent adv dt as h =
     (as ! h)\<lparr>position := fst (adv dt as h), velocity := snd (adv dt as h)\<rparr>"

definition doStep :: "Advance \<Rightarrow> RVOSimulator \<Rightarrow> RVOSimulator" where
  "doStep adv r =
     r\<lparr>agents := map (advance_agent adv (timeStep r) (agents r)) [0..<length (agents r)],
       calls := calls r @ [DoStep]\<rparr>"

text \<open>Modelled from the spec: agentCount(), position(handle) and velocity(handle).\<close>

definition getNumAgents :: "RVOSimulator \<Rightarrow> nat" where
  "getNumAgents r = length (agents r)"

definition getAgentPosition :: "nat \<Rightarrow> RVOSimulator \<Rightarrow> error + Vector2" where
  "getAgentPosition h r =
     (if h < length (agents r) then Inr (position (agents r ! h)) else Inl InvalidHandle)"

definition getAgentVelocity :: "nat \<Rightarrow> RVOSimulator \<Rightarrow> error + Vector2" where
  "getAgentVelocity h r =
     (if h < length (agents r) then Inr (velocity (agents r ! h)) else Inl InvalidHandle)"

section \<open>The experiment driver\<close>

record AgentTrajectory =
  positions :: "Vector2 list"
  speeds :: "real list"
  headings :: "real list"

record ExperimentSimulation =
  sim :: RVOSimulator
  avatarData :: "string \<rightharpoonup> AgentTrajectory"
  participantData :: AgentTrajectory
  currentStep :: int
  maxSteps :: int
  subject :: int
  trial :: int

definition empty_trajectory :: AgentTrajectory where
  "empty_trajectory = \<lparr>positions = [], speeds = [], headings = []\<rparr>"

definition ExperimentSimulation_new :: ExperimentSimulation where
  "ExperimentSimulation_new =
     \<lparr>sim = setAgentDefaults NEIGHBOR_DIST MAX_NEIGHBORS TIME_HORIZON TIME_HORIZON_OBST
              RADIUS MAX_SPEED (setTimeStep TIME_STEP RVOSimulator_new),
      avatarData = Map.empty,
      participantData = empty_trajectory,
      currentStep = 0, maxSteps = 0, subject = 10, trial = 76\<rparr>"

subsection \<open>The preferred-velocity estimator\<close>

text \<open>
  In \<^verbatim>\<open>currentStep >= trajectory.positions.size() - 1\<close> the right-hand side is unsigned:
  the subtraction wraps around for an empty vector, and the \<^verbatim>\<open>int\<close> on the left is
  converted to \<^verbatim>\<open>size_t\<close> before the comparison.
\<close>

definition calculatePreferredVelocity ::
  "ExperimentSimulation \<Rightarrow> int \<Rightarrow> AgentTrajectory \<Rightarrow> error + Vector2" where
  "calculatePreferredVelocity s agentId trajectory =
     (if to_size_t (currentStep s) \<ge> to_size_t (vec_size (positions trajectory) - 1)
      then Inr (0, 0)
      else
        case vec_at (positions trajectory) (currentStep s) of
          Inl e \<Rightarrow> Inl e
        | Inr currentPos \<Rightarrow>
            (case vec_at (positions trajectory) (currentStep s + 1) of
               Inl e \<Rightarrow> Inl e
             | Inr nextPos \<Rightarrow> Inr (vec_div (vec_sub nextPos currentPos) TIME_STEP)))"

subsection \<open>Keys of the avatar map\<close>

text \<open>\<^verbatim>\<open>std::to_string\<close> on an \<^verbatim>\<open>int\<close>: the decimal digits, with a sign when negative.\<close>

definition digit_char :: "nat \<Rightarrow> char" where
  "digit_char d = ''0123456789'' ! d"

fun decimal :: "nat \<Rightarrow> string" where
  "decimal n = (if n < 10 then [digit_char n] else decimal (n div 10) @ [digit_char (n mod 10)])"

declare decimal.simps [simp del]

definition to_string :: "int \<Rightarrow> string" where
  "to_string i = (if i < 0 then CHR ''-'' # decimal (nat (- i)) else decimal (nat i))"

definition avatar_key :: "int \<Rightarrow> string" where
  "avatar_key avatar = ''A'' @ to_string avatar @ ''P''"

subsection \<open>Synthetic trajectories\<close>

text \<open>
  The loops of \<^verbatim>\<open>generateSampleData\<close> run over \<open>[0..maxSteps - 1]\<close> and \<open>[1..10]\<close>; each
  iteration appends one sample to the three vectors of a trajectory. \<^verbatim>\<open>avatarData[key]\<close>
  creates an empty trajectory when the key is new.
\<close>

definition participant_sample :: "int \<Rightarrow> int \<Rightarrow> AgentTrajectory \<Rightarrow> AgentTrajectory" where
  "participant_sample ms i traj =
     (let t = real_of_int i * TIME_STEP;
          x = MIN_X + 5 + 2 * sin (t * 0.5);
          y = MIN_Y + (MAX_Y - MIN_Y) * (real_of_int i / real_of_int ms)
      in traj\<lparr>positions := positions traj @ [(x, y)],
              speeds := speeds traj @ [1.2 + 0.3 * sin t],
              headings := headings traj @ [pi / 2 + 0.2 * sin (t * 0.3)]\<rparr>)"

definition avatar_sample :: "int \<Rightarrow> int \<Rightarrow> int \<Rightarrow> AgentTrajectory \<Rightarrow> AgentTrajectory" where
  "avatar_sample ms avatar i traj =
     (let offsetX = (real_of_int avatar - 5.5) * 2;
          startY = MAX_Y - 10;
          t = real_of_int i * TIME_STEP;
          x = MIN_X + 30 + offsetX + sin (t * 0.3 + real_of_int avatar);
          y = startY - (MAX_Y - MIN_Y) * 0.8 * (real_of_int i / real_of_int ms)
      in traj\<lparr>positions := positions traj @ [(x, y)],
              speeds := speeds traj @ [1 + 0.2 * sin (t + real_of_int avatar)],
              headings := headings traj @ [- (pi / 2) + 0.1 * sin (t * 0.4 + real_of_int avatar)]\<rparr>)"

definition generate_avatar ::
  "int \<Rightarrow> int \<Rightarrow> (string \<rightharpoonup> AgentTrajectory) \<Rightarrow> (string \<rightharpoonup> AgentTrajectory)" where
  "generate_avatar ms avatar m =
     (let key = avatar_key avatar;
          traj = (case m key of None \<Rightarrow> empty_trajectory | Some t \<Rightarrow> t)
      in m(key \<mapsto> fold (avatar_sample ms avatar) [0..ms - 1] traj))"

definition generateSampleData :: "ExperimentSimulation \<Rightarrow> ExperimentSimulation" where
  "generateSampleData s =
     (let ms = 500
      in s\<lparr>maxSteps := ms,
           participantData := fold (participant_sample ms) [0..ms - 1] (participantData s),
           avatarData := fold (generate_avatar ms) [1..10] (avatarData s)\<rparr>)"

definition loadTrajectoryData ::
  "string \<Rightarrow> ExperimentSimulation \<Rightarrow> bool \<times> ExperimentSimulation" where
  "loadTrajectoryData dataPath s = (True, generateSampleData s)"

subsection \<open>Registration\<close>

text \<open>
  The handles \<^verbatim>\<open>addAgent\<close> returns are only printed, except the goal's, which addresses
  the call that sets the goal's maximum speed. Console output is not modelled.
\<close>

definition goalPos :: Vector2 where
  "goalPos = (MIN_X, sqrt (9 * 9 + 11 * 11) + MIN_Y)"

definition setup_participant :: "ExperimentSimulation \<Rightarrow> ExperimentSimulation" where
  "setup_participant s =
     (if positions (participantData s) \<noteq> []
      then s\<lparr>sim := snd (addAgent (positions (participantData s) ! 0) (sim s))\<rparr>
      else s)"

definition setup_avatar :: "int \<Rightarrow> ExperimentSimulation \<Rightarrow> ExperimentSimulation" where
  "setup_avatar avatar s =
     (case avatarData s (avatar_key avatar) of
        None \<Rightarrow> s
      | Some traj \<Rightarrow>
          if positions traj \<noteq> []
          then s\<lparr>sim := snd (addAgent (positions traj ! 0) (sim s))\<rparr>
          else s)"

definition setupSimulation :: "ExperimentSimulation \<Rightarrow> error + ExperimentSimulation" where
  "setupSimulation s =
     (let s1 = setup_participant s;
          s2 = fold setup_avatar [1..10] s1;
          (goalId, r) = addAgent goalPos (sim s2)
      in case setAgentMaxSpeed goalId 0 r of
           Inl e \<Rightarrow> Inl e
         | Inr r' \<Rightarrow> Inr (s2\<lparr>sim := r'\<rparr>))"

subsection \<open>One tick: the preferred velocities\<close>

text \<open>
  A loop whose body can fail stops at the first error. The handle of an avatar is the
  loop counter, converted to \<^verbatim>\<open>size_t\<close>; the counter runs from 1 to 10.
\<close>

fun for_each :: "('a \<Rightarrow> 's \<Rightarrow> error + 's) \<Rightarrow> 'a list \<Rightarrow> 's \<Rightarrow> error + 's" where
  "for_each body [] s = Inr s"
| "for_each body (x # xs) s =
     (case body x s of Inl e \<Rightarrow> Inl e | Inr s' \<Rightarrow> for_each body xs s')"

definition update_participant :: "ExperimentSimulation \<Rightarrow> error + ExperimentSimulation" where
  "update_participant s =
     (if to_size_t (currentStep s) < vec_size (positions (participantData s))
      then
        case calculatePreferredVelocity s 0 (participantData s) of
          Inl e \<Rightarrow> Inl e
        | Inr preferredVel \<Rightarrow>
            (case setAgentPrefVelocity 0 preferredVel (sim s) of
               Inl e \<Rightarrow> Inl e
             | Inr r \<Rightarrow> Inr (s\<lparr>sim := r\<rparr>))
      else Inr s)"

definition update_avatar :: "int \<Rightarrow> ExperimentSimulation \<Rightarrow> error + ExperimentSimulation" where
  "update_avatar avatar s =
     (case avatarData s (avatar_key avatar) of
        None \<Rightarrow> Inr s
      | Some traj \<Rightarrow>
          if to_size_t (currentStep s) < vec_size (positions traj)
          then
            case calculatePreferredVelocity s avatar traj of
              Inl e \<Rightarrow> Inl e
            | Inr preferredVel \<Rightarrow>
                (case setAgentPrefVelocity (nat avatar) preferredVel (sim s) of
                   Inl e \<Rightarrow> Inl e
                 | Inr r \<Rightarrow> Inr (s\<lparr>sim := r\<rparr>))
          else Inr s)"

definition updateAgentPositions :: "ExperimentSimulation \<Rightarrow> error + ExperimentSimulation" where
  "updateAgentPositions s =
     (if currentStep s \<ge> maxSteps s then Inr s
      else
        case update_participant s of
          Inl e \<Rightarrow> Inl e
        | Inr s1 \<Rightarrow>
            (case for_each update_avatar [1..10] s1 of
               Inl e \<Rightarrow> Inl e
             | Inr s2 \<Rightarrow>
                 (case setAgentPrefVelocity 11 (0, 0) (sim s2) of
                    Inl e \<Rightarrow> Inl e
                  | Inr r \<Rightarrow> Inr (s2\<lparr>sim := r\<rparr>))))"

subsection \<open>The run loop and its records\<close>

text \<open>One row of \<^verbatim>\<open>simulation_output.csv\<close>; the header row is not modelled.\<close>

record Row =
  row_step :: int
  row_agent_id :: nat
  row_x :: real
  row_y :: real
  row_vx :: real
  row_vy :: real
  row_speed :: real

text \<open>
  The rows of a sampled tick, one per registered agent in the order of the handles, are
  read from the oracle after the advance of that tick.
\<close>

definition log_row :: "ExperimentSimulation \<Rightarrow> nat \<Rightarrow> error + Row" where
  "log_row s i =
     (case getAgentPosition i (sim s) of
        Inl e \<Rightarrow> Inl e
      | Inr pos \<Rightarrow>
          (case getAgentVelocity i (sim s) of
             Inl e \<Rightarrow> Inl e
           | Inr vel \<Rightarrow>
               Inr \<lparr>row_step = currentStep s, row_agent_id = i,
                    row_x = fst pos, row_y = snd pos,
                    row_vx = fst vel, row_vy = snd vel,
                    row_speed = vec_abs vel\<rparr>))"

fun collect :: "('a \<Rightarrow> error + 'b) \<Rightarrow> 'a list \<Rightarrow> error + 'b list" where
  "collect f [] = Inr []"
| "collect f (x # xs) =
     (case f x of
        Inl e \<Rightarrow> Inl e
      | Inr y \<Rightarrow> (case collect f xs of Inl e \<Rightarrow> Inl e | Inr ys \<Rightarrow> Inr (y # ys)))"

definition log_rows :: "ExperimentSimulation \<Rightarrow> error + Row list" where
  "log_rows s = collect (log_row s) [0..<getNumAgents (sim s)]"

text \<open>
  The loop of \<^verbatim>\<open>runSimulation\<close>, from the current step up to \<^verbatim>\<open>maxSteps\<close>, with the rows
  written so far.
\<close>

function run_loop ::
  "Advance \<Rightarrow> ExperimentSimulation \<Rightarrow> Row list \<Rightarrow> error + (ExperimentSimulation \<times> Row list)" where
  "run_loop adv s out =
     (if currentStep s < maxSteps s
      then
        case updateAgentPositions s of
          Inl e \<Rightarrow> Inl e
        | Inr s1 \<Rightarrow>
            (let s2 = s1\<lparr>sim := doStep adv (sim s1)\<rparr>
             in case (if currentStep s2 mod 10 = 0 then log_rows s2 else Inr []) of
                  Inl e \<Rightarrow> Inl e
                | Inr rows \<Rightarrow>
                    run_loop adv (s2\<lparr>currentStep := currentStep s2 + 1\<rparr>) (out @ rows))
      else Inr (s, out))"
  by pat_completeness auto

termination
proof (relation "measure (\<lambda>(adv, s, out). nat (maxSteps s - currentStep s))")
  show "wf (measure (\<lambda>(adv, s, out). nat (maxSteps s - currentStep s)))"
    by simp
next
  fix adv :: Advance and s s1 s2 :: ExperimentSimulation and out rows :: "Row list"
  assume loop: "currentStep s < maxSteps s" and tick: "updateAgentPositions s = Inr s1"
    and s2: "s2 = s1\<lparr>sim := doStep adv (sim s1)\<rparr>"
  have avatars: "currentStep t' = currentStep t \<and> maxSteps t' = maxSteps t"
    if "for_each update_avatar xs t = Inr t'" for xs t t'
    using that
  proof (induction xs arbitrary: t)
    case Nil
    then show ?case by simp
  next
    case (Cons x xs)
    from Cons.prems obtain t1 where a: "update_avatar x t = Inr t1"
      and b: "for_each update_avatar xs t1 = Inr t'"
      by (auto split: sum.splits)
    from a have "currentStep t1 = currentStep t \<and> maxSteps t1 = maxSteps t"
      by (auto simp: update_avatar_def split: option.splits if_splits sum.splits)
    with Cons.IH [OF b] show ?case by simp
  qed
  from loop tick obtain t1 t2 r where a: "update_participant s = Inr t1"
    and b: "for_each update_avatar [1..10] t1 = Inr t2"
    and c: "s1 = t2\<lparr>sim := r\<rparr>"
    by (auto simp: updateAgentPositions_def split: sum.splits)
  from a have "currentStep t1 = currentStep s \<and> maxSteps t1 = maxSteps s"
    by (auto simp: update_participant_def split: if_splits sum.splits)
  with avatars [OF b] c have "currentStep s1 = currentStep s \<and> maxSteps s1 = maxSteps s"
    by simp
  with loop s2
  show "((adv, s2\<lparr>currentStep := currentStep s2 + 1\<rparr>, out @ rows), (adv, s, out))
      \<in> measure (\<lambda>(adv, s, out). nat (maxSteps s - currentStep s))"
    by simp
qed

declare run_loop.simps [simp del]

definition runSimulation ::
  "Advance \<Rightarrow> ExperimentSimulation \<Rightarrow> error + (ExperimentSimulation \<times> Row list)" where
  "runSimulation adv s = run_loop adv (s\<lparr>currentStep := 0\<rparr>) []"

subsection \<open>The program\<close>

text \<open>
  \<^verbatim>\<open>main\<close> returns the exit code, the lines written to the error stream and the rows
  written to the output file.
\<close>

definition main :: "Advance \<Rightarrow> error + (int \<times> string list \<times> Row list)" where
  "main adv =
     (let experiment = ExperimentSimulation_new;
          (loaded, experiment1) = loadTrajectoryData ''./data/'' experiment;
          err = (if \<not> loaded then [''Warning: Using generated sample data''] else [])
      in case setupSimulation experiment1 of
           Inl e \<Rightarrow> Inl e
         | Inr experiment2 \<Rightarrow>
             (case runSimulation adv experiment2 of
                Inl e \<Rightarrow> Inl e
              | Inr (experiment3, rows) \<Rightarrow> Inr (0, err, rows)))"

section \<open>Definitions for the statements\<close>

text \<open>
  The definitions of this section are not translations of source functions: they name
  what the source functions compute, the states of the run and the inputs of the
  examples. The lemmas that follow prove that the source functions compute them.
\<close>

subsection \<open>One tick in closed form\<close>

text \<open>
  \<open>estimate_for\<close> is the preferred velocity a tick sends for a trajectory, if it sends
  one; \<open>send\<close> is the oracle after that call and \<open>sent_calls\<close> the entry it adds to the
  call log; \<open>prefs_sent\<close> is the oracle after all calls of one \<^verbatim>\<open>updateAgentPositions\<close>,
  on which the advance of that tick is invoked, and \<open>tick_calls\<close> the calls it has
  received on the way. \<open>with_pref\<close> is an agent after such a call.
\<close>

definition estimate_for :: "ExperimentSimulation \<Rightarrow> AgentTrajectory option \<Rightarrow> Vector2 option" where
  "estimate_for s mt =
     (case mt of
        None \<Rightarrow> None
      | Some T \<Rightarrow>
          if to_size_t (currentStep s) < vec_size (positions T)
          then (case calculatePreferredVelocity s 0 T of Inl e \<Rightarrow> None | Inr v \<Rightarrow> Some v)
          else None)"

definition send :: "nat \<Rightarrow> Vector2 option \<Rightarrow> RVOSimulator \<Rightarrow> RVOSimulator" where
  "send h mv r =
     (case mv of
        None \<Rightarrow> r
      | Some v \<Rightarrow> r\<lparr>agents := (agents r)[h := (agents r ! h)\<lparr>prefVelocity := v\<rparr>],
                    calls := calls r @ [SetAgentPrefVelocity h v]\<rparr>)"

definition with_pref :: "Vector2 option \<Rightarrow> Agent \<Rightarrow> Agent" where
  "with_pref mv a = (case mv of None \<Rightarrow> a | Some v \<Rightarrow> a\<lparr>prefVelocity := v\<rparr>)"

definition sent_calls :: "nat \<Rightarrow> Vector2 option \<Rightarrow> Call list" where
  "sent_calls h mv = (case mv of None \<Rightarrow> [] | Some v \<Rightarrow> [SetAgentPrefVelocity h v])"

definition prefs_sent :: "ExperimentSimulation \<Rightarrow> RVOSimulator" where
  "prefs_sent s =
     send 11 (Some (0, 0))
       (fold (\<lambda>a. send (nat a) (estimate_for s (avatarData s (avatar_key a)))) [1..10]
          (send 0 (estimate_for s (Some (participantData s))) (sim s)))"

definition tick_calls :: "ExperimentSimulation \<Rightarrow> Call list" where
  "tick_calls s =
     sent_calls 0 (estimate_for s (Some (participantData s))) @
     concat (map (\<lambda>a. sent_calls (nat a) (estimate_for s (avatarData s (avatar_key a)))) [1..10]) @
     [SetAgentPrefVelocity 11 (0, 0)]"

subsection \<open>The run in closed form\<close>

text \<open>
  \<open>after_tick\<close> is the state after the calls and the advance of one tick, \<open>row_of\<close> the
  record of an agent and \<open>tick_rows\<close> the records the tick emits; \<open>next_tick\<close> is the state
  at the start of the next tick. \<open>ticks\<close>, \<open>rows_of_ticks\<close> and \<open>calls_of_ticks\<close> are the
  state, the records and the oracle calls after \<open>k\<close> ticks. \<open>tick_start\<close> is the state of
  a run at the start of its tick \<open>k\<close>, and \<open>before_advance\<close> the oracle on which the
  advance of that tick is invoked. The driver addresses the participant as handle 0 and
  the avatar \<open>a\<close> as handle \<open>a\<close>: \<open>trajectory_of\<close> is the trajectory it reads for a handle
  up to 10.
\<close>

definition row_of :: "ExperimentSimulation \<Rightarrow> nat \<Rightarrow> Row" where
  "row_of s i =
     \<lparr>row_step = currentStep s, row_agent_id = i,
      row_x = fst (position (agents (sim s) ! i)), row_y = snd (position (agents (sim s) ! i)),
      row_vx = fst (velocity (agents (sim s) ! i)), row_vy = snd (velocity (agents (sim s) ! i)),
      row_speed = vec_abs (velocity (agents (sim s) ! i))\<rparr>"

definition after_tick :: "Advance \<Rightarrow> ExperimentSimulation \<Rightarrow> ExperimentSimulation" where
  "after_tick adv s = s\<lparr>sim := doStep adv (prefs_sent s)\<rparr>"

definition tick_rows :: "Advance \<Rightarrow> ExperimentSimulation \<Rightarrow> Row list" where
  "tick_rows adv s =
     (if currentStep s mod 10 = 0
      then map (row_of (after_tick adv s)) [0..<length (agents (sim s))]
      else [])"

definition next_tick :: "Advance \<Rightarrow> ExperimentSimulation \<Rightarrow> ExperimentSimulation" where
  "next_tick adv s = (after_tick adv s)\<lparr>currentStep := currentStep s + 1\<rparr>"

fun ticks :: "Advance \<Rightarrow> nat \<Rightarrow> ExperimentSimulation \<Rightarrow> ExperimentSimulation" where
  "ticks adv 0 s = s"
| "ticks adv (Suc k) s = next_tick adv (ticks adv k s)"

fun rows_of_ticks :: "Advance \<Rightarrow> nat \<Rightarrow> ExperimentSimulation \<Rightarrow> Row list" where
  "rows_of_ticks adv 0 s = []"
| "rows_of_ticks adv (Suc k) s = rows_of_ticks adv k s @ tick_rows adv (ticks adv k s)"

definition calls_of_ticks :: "Advance \<Rightarrow> nat \<Rightarrow> ExperimentSimulation \<Rightarrow> Call list" where
  "calls_of_ticks adv k s = concat (map (\<lambda>j. tick_calls (ticks adv j s) @ [DoStep]) [0..<k])"

definition tick_start :: "Advance \<Rightarrow> ExperimentSimulation \<Rightarrow> nat \<Rightarrow> ExperimentSimulation" where
  "tick_start adv s k = ticks adv k (s\<lparr>currentStep := 0\<rparr>)"

definition before_advance :: "Advance \<Rightarrow> ExperimentSimulation \<Rightarrow> nat \<Rightarrow> RVOSimulator" where
  "before_advance adv s k = prefs_sent (tick_start adv s k)"

definition trajectory_of :: "ExperimentSimulation \<Rightarrow> nat \<Rightarrow> AgentTrajectory option" where
  "trajectory_of s h = (if h = 0 then Some (participantData s) else avatarData s (avatar_key (int h)))"

subsection \<open>Registration in closed form\<close>

text \<open>
  \<open>first_position\<close> is the tick-0 position of a trajectory that is present and has a
  sample; \<open>start_positions\<close> lists, in the order of the calls, the positions at which
  \<^verbatim>\<open>setupSimulation\<close> registers the trajectory-driven agents; \<open>new_agent\<close> is an agent as
  registered and \<open>register_all\<close> the oracle after a list of registrations.
\<close>

definition first_position :: "AgentTrajectory option \<Rightarrow> Vector2 option" where
  "first_position mt =
     (case mt of
        None \<Rightarrow> None
      | Some T \<Rightarrow> if positions T \<noteq> [] then Some (positions T ! 0) else None)"

definition avatar_start :: "ExperimentSimulation \<Rightarrow> int \<Rightarrow> Vector2 option" where
  "avatar_start s a = first_position (avatarData s (avatar_key a))"

definition start_positions :: "ExperimentSimulation \<Rightarrow> Vector2 list" where
  "start_positions s =
     List.map_filter id
       (first_position (Some (participantData s)) # map (avatar_start s) [1..10])"

definition new_agent :: "RVOSimulator \<Rightarrow> Vector2 \<Rightarrow> Agent" where
  "new_agent r p =
     \<lparr>position = p, velocity = (0, 0), prefVelocity = (0, 0), maxSpeed = defaultMaxSpeed r\<rparr>"

definition register_all :: "Vector2 option list \<Rightarrow> RVOSimulator \<Rightarrow> RVOSimulator" where
  "register_all ps r =
     r\<lparr>agents := agents r @ map (new_agent r) (List.map_filter id ps),
       calls := calls r @ map AddAgent (List.map_filter id ps)\<rparr>"

subsection \<open>The synthetic run\<close>

text \<open>
  \<open>participant_position\<close> and \<open>avatar_position\<close> are the positions the generator appends
  at index \<open>i\<close>; \<open>sample_counts\<close> counts the samples of a trajectory; \<open>experiment_loaded\<close>
  and \<open>experiment_ready\<close> are the states of \<^verbatim>\<open>main\<close> after loading and after setup.
\<close>

definition participant_position :: "int \<Rightarrow> int \<Rightarrow> Vector2" where
  "participant_position ms i =
     (MIN_X + 5 + 2 * sin (real_of_int i * TIME_STEP * 0.5),
      MIN_Y + (MAX_Y - MIN_Y) * (real_of_int i / real_of_int ms))"

definition avatar_position :: "int \<Rightarrow> int \<Rightarrow> int \<Rightarrow> Vector2" where
  "avatar_position ms avatar i =
     (MIN_X + 30 + (real_of_int avatar - 5.5) * 2 +
        sin (real_of_int i * TIME_STEP * 0.3 + real_of_int avatar),
      MAX_Y - 10 - (MAX_Y - MIN_Y) * 0.8 * (real_of_int i / real_of_int ms))"

definition sample_counts :: "AgentTrajectory \<Rightarrow> nat \<times> nat \<times> nat" where
  "sample_counts t = (length (positions t), length (speeds t), length (headings t))"

definition experiment_loaded :: ExperimentSimulation where
  "experiment_loaded = snd (loadTrajectoryData ''./data/'' ExperimentSimulation_new)"

definition experiment_ready :: ExperimentSimulation where
  "experiment_ready = projr (setupSimulation experiment_loaded)"

subsection \<open>Sample oracles and sample states\<close>

text \<open>
  \<open>free_motion\<close> is an oracle without neighbours to avoid: each agent takes its preferred
  velocity, cut to its maximum speed, and moves by it for one time step. \<open>hold_still\<close>
  leaves every agent where it is.
\<close>

definition clamp_speed :: "Vector2 \<Rightarrow> real \<Rightarrow> Vector2" where
  "clamp_speed v m =
     (if vec_abs v > m then (fst v / vec_abs v * m, snd v / vec_abs v * m) else v)"

definition free_motion :: Advance where
  "free_motion dt as h =
     (let a = as ! h; v = clamp_speed (prefVelocity a) (maxSpeed a)
      in ((fst (position a) + fst v * dt, snd (position a) + snd v * dt), v))"

definition hold_still :: Advance where
  "hold_still dt as h = (position (as ! h), (0, 0))"

text \<open>
  \<open>twelve_idle\<close> has twelve registered agents, a budget of three ticks and no trajectory
  at all; \<open>two_avatars\<close> has a participant and the avatars 1 and 2, one sample each, and
  a new oracle.
\<close>

definition idle_agent :: Agent where
  "idle_agent = \<lparr>position = (0, 0), velocity = (0, 0), prefVelocity = (0, 0), maxSpeed = 0\<rparr>"

definition twelve_idle :: ExperimentSimulation where
  "twelve_idle =
     ExperimentSimulation_new
       \<lparr>sim := (sim ExperimentSimulation_new)\<lparr>agents := replicate 12 idle_agent, calls := []\<rparr>,
        maxSteps := 3\<rparr>"

definition two_avatars :: ExperimentSimulation where
  "two_avatars =
     ExperimentSimulation_new
       \<lparr>participantData := \<lparr>positions = [(1, 2)], speeds = [1], headings = [0]\<rparr>,
        avatarData :=
          [''A1P'' \<mapsto> \<lparr>positions = [(3, 4)], speeds = [1], headings = [0]\<rparr>,
           ''A2P'' \<mapsto> \<lparr>positions = [(5, 6)], speeds = [1], headings = [0]\<rparr>]\<rparr>"

subsection \<open>The goal agent\<close>

text \<open>
  Modelled from the spec: the oracle honours the maximum speed of an agent (setMaxSpeed
  pins a goal agent to zero speed, so that the oracle never moves it): after an advance no
  agent is faster than its maximum speed. The solver is not in the source file; this is
  the property of it the claim about the goal agent's records rests on.
\<close>

definition respects_max_speed :: "Advance \<Rightarrow> bool" where
  "respects_max_speed adv =
     (\<forall>dt as h. h < length as \<longrightarrow>
        fst (snd (adv dt as h)) * fst (snd (adv dt as h)) +
        snd (snd (adv dt as h)) * snd (snd (adv dt as h))
          \<le> maxSpeed (as ! h) * maxSpeed (as ! h))"

text \<open>
  \<open>goal_at_rest\<close> holds of a record that is not the goal agent's or has velocity zero;
  \<open>goal_pref_zero\<close> holds of a call that does not set the goal agent's preferred velocity
  or sets it to zero. The goal agent is the handle 11.
\<close>

definition goal_at_rest :: "Row \<Rightarrow> bool" where
  "goal_at_rest r = (row_agent_id r = 11 \<longrightarrow> (row_vx r, row_vy r) = (0, 0))"

definition goal_pref_zero :: "Call \<Rightarrow> bool" where
  "goal_pref_zero c =
     (case c of SetAgentPrefVelocity h v \<Rightarrow> h = 11 \<longrightarrow> v = (0, 0) | _ \<Rightarrow> True)"

section \<open>Properties of the estimator\<close>

lemma to_size_t_id: "0 \<le> i \<Longrightarrow> i < 2 ^ 64 \<Longrightarrow> to_size_t i = i"
  by (simp add: to_size_t_def)

lemma to_size_t_minus_one: "to_size_t (- 1) = 2 ^ 64 - 1"
  by (simp add: to_size_t_def)

lemma vec_at_in_range:
  "0 \<le> i \<Longrightarrow> i < int (length xs) \<Longrightarrow> length xs \<le> 2 ^ 64 \<Longrightarrow> vec_at xs i = Inr (xs ! nat i)"
  by (simp add: vec_at_def vec_size_def to_size_t_def)

lemma vec_at_empty: "vec_at [] i = Inl OutOfBounds"
  by (simp add: vec_at_def vec_size_def to_size_t_def Let_def)

lemma estimate_nonempty:
  assumes "0 \<le> currentStep s" and "currentStep s < 2 ^ 31"
    and "positions T \<noteq> []" and "length (positions T) \<le> 2 ^ 64"
  shows "calculatePreferredVelocity s a T =
     (if currentStep s < int (length (positions T)) - 1
      then Inr (vec_div (vec_sub (positions T ! nat (currentStep s + 1))
                                 (positions T ! nat (currentStep s))) TIME_STEP)
      else Inr (0, 0))"
proof -
  let ?n = "int (length (positions T))"
  have n: "1 \<le> ?n" "?n \<le> 2 ^ 64"
    using assms(3,4) by (auto simp: Suc_le_eq)
  have c: "to_size_t (currentStep s) = currentStep s"
    using assms(1,2) by (intro to_size_t_id) auto
  have m: "to_size_t (vec_size (positions T) - 1) = ?n - 1"
    unfolding vec_size_def using n by (intro to_size_t_id) auto
  show ?thesis
  proof (cases "currentStep s < ?n - 1")
    case True
    then have "vec_at (positions T) (currentStep s) = Inr (positions T ! nat (currentStep s))"
      and "vec_at (positions T) (currentStep s + 1) = Inr (positions T ! nat (currentStep s + 1))"
      using assms(1,4) by (auto intro!: vec_at_in_range)
    with True c m show ?thesis
      by (simp add: calculatePreferredVelocity_def)
  next
    case False
    with c m show ?thesis
      by (simp add: calculatePreferredVelocity_def)
  qed
qed

lemma estimate_empty:
  assumes "0 \<le> currentStep s" and "currentStep s < 2 ^ 31" and "positions T = []"
  shows "calculatePreferredVelocity s a T = Inl OutOfBounds"
proof -
  have "to_size_t (currentStep s) = currentStep s"
    using assms(1,2) by (intro to_size_t_id) auto
  moreover have "currentStep s < 2 ^ 64 - 1"
    using assms(2) by simp
  ultimately show ?thesis
    using assms(3)
    by (simp add: calculatePreferredVelocity_def vec_size_def to_size_t_minus_one vec_at_empty)
qed

lemma new_fields [simp]:
  "currentStep ExperimentSimulation_new = 0"
  "maxSteps ExperimentSimulation_new = 0"
  "participantData ExperimentSimulation_new = empty_trajectory"
  "avatarData ExperimentSimulation_new = Map.empty"
  "agents (sim ExperimentSimulation_new) = []"
  "timeStep (sim ExperimentSimulation_new) = TIME_STEP"
  "defaultMaxSpeed (sim ExperimentSimulation_new) = MAX_SPEED"
  by (simp_all add: ExperimentSimulation_new_def setAgentDefaults_def setTimeStep_def
      RVOSimulator_new_def)

lemma empty_trajectory_fields [simp]:
  "positions empty_trajectory = []" "speeds empty_trajectory = []"
  "headings empty_trajectory = []"
  by (simp_all add: empty_trajectory_def)

text \<open>
  Claim C1. For a tick \<open>i\<close> with \<open>i < length T - 1\<close> the estimator returns
  \<open>(T[i+1] - T[i]) / dt\<close>, and for a tick \<open>i \<ge> length T - 1\<close> it returns the zero vector.
  The code does so for every trajectory with at least one sample. For the empty
  trajectory \<open>size() - 1\<close> wraps around to \<open>2 ^ 64 - 1\<close>, the guard is false at every
  tick, and the code reads \<open>positions[currentStep]\<close> of an empty vector.
\<close>

theorem estimate_by_cases:
  assumes "0 \<le> currentStep s" and "currentStep s < 2 ^ 31"
    and "length (positions T) \<le> 2 ^ 64"
  shows "calculatePreferredVelocity s a T =
     (if positions T = [] then Inl OutOfBounds
      else if currentStep s < int (length (positions T)) - 1
      then Inr (vec_div (vec_sub (positions T ! nat (currentStep s + 1))
                                 (positions T ! nat (currentStep s))) TIME_STEP)
      else Inr (0, 0))"
  using assms estimate_nonempty [of s T a] estimate_empty [of s T a] by simp

theorem estimate_by_cases_witness:
  "0 \<le> currentStep ExperimentSimulation_new \<and> currentStep ExperimentSimulation_new < 2 ^ 31
   \<and> length (positions empty_trajectory) \<le> 2 ^ 64
   \<and> calculatePreferredVelocity ExperimentSimulation_new 0 empty_trajectory = Inl OutOfBounds"
  using estimate_by_cases [of ExperimentSimulation_new empty_trajectory 0] by simp

text \<open>The estimator on trajectories of one and of two samples.\<close>

lemma estimate_one_sample:
  "calculatePreferredVelocity (ExperimentSimulation_new\<lparr>currentStep := 3\<rparr>) 0
     \<lparr>positions = [(1, 2)], speeds = [1], headings = [0]\<rparr> = Inr (0, 0)"
  by (simp add: calculatePreferredVelocity_def to_size_t_def vec_size_def)

lemma estimate_two_samples:
  "calculatePreferredVelocity ExperimentSimulation_new 0
     \<lparr>positions = [(1, 2), (2, 4)], speeds = [1, 1], headings = [0, 0]\<rparr> = Inr (90, 180)"
  by (simp add: calculatePreferredVelocity_def to_size_t_def vec_size_def vec_at_def
      vec_sub_def vec_div_def TIME_STEP_def)

text \<open>
  Claim C2. For a trajectory of length 0 or 1 the estimator returns the zero vector at
  every tick, without reading a sample out of bounds. The code does so for length 1. For
  length 0 it reads out of bounds at every tick an \<^verbatim>\<open>int\<close> can count.
\<close>

theorem estimate_short_trajectory:
  assumes "0 \<le> currentStep s" and "currentStep s < 2 ^ 31"
    and "length (positions T) \<le> 1"
  shows "calculatePreferredVelocity s a T =
     (if length (positions T) = 0 then Inl OutOfBounds else Inr (0, 0))"
proof (cases "positions T = []")
  case True
  with assms estimate_empty [of s T a] show ?thesis by simp
next
  case False
  with assms(3) have "length (positions T) = 1"
    by (cases "positions T") auto
  with assms False estimate_nonempty [of s T a] show ?thesis by simp
qed

theorem estimate_short_trajectory_witness:
  "0 \<le> currentStep (ExperimentSimulation_new\<lparr>currentStep := 7\<rparr>)
   \<and> currentStep (ExperimentSimulation_new\<lparr>currentStep := 7\<rparr>) < 2 ^ 31
   \<and> length (positions empty_trajectory) \<le> 1
   \<and> calculatePreferredVelocity (ExperimentSimulation_new\<lparr>currentStep := 7\<rparr>) 0 empty_trajectory
       = Inl OutOfBounds"
  using estimate_short_trajectory [of "ExperimentSimulation_new\<lparr>currentStep := 7\<rparr>" empty_trajectory 0]
  by simp

section \<open>Properties of the synthetic trajectories\<close>

lemma avatar_key_simps:
  "avatar_key 1 = ''A1P''" "avatar_key 2 = ''A2P''" "avatar_key 3 = ''A3P''"
  "avatar_key 4 = ''A4P''" "avatar_key 5 = ''A5P''" "avatar_key 6 = ''A6P''"
  "avatar_key 7 = ''A7P''" "avatar_key 8 = ''A8P''" "avatar_key 9 = ''A9P''"
  "avatar_key 10 = ''A10P''"
  by (simp_all add: avatar_key_def to_string_def decimal.simps digit_char_def)

lemma upto_1_10: "[1..10] = [1, 2, 3, 4, 5, 6, 7, 8, 9, 10 :: int]"
  by (subst upto.simps) simp

lemma fold_participant_sample_length:
  "length (positions (fold (participant_sample ms) is t)) = length (positions t) + length is
   \<and> length (speeds (fold (participant_sample ms) is t)) = length (speeds t) + length is
   \<and> length (headings (fold (participant_sample ms) is t)) = length (headings t) + length is"
  by (induction "is" arbitrary: t) (simp_all add: participant_sample_def Let_def)

lemma fold_avatar_sample_length:
  "length (positions (fold (avatar_sample ms a) is t)) = length (positions t) + length is
   \<and> length (speeds (fold (avatar_sample ms a) is t)) = length (speeds t) + length is
   \<and> length (headings (fold (avatar_sample ms a) is t)) = length (headings t) + length is"
  by (induction "is" arbitrary: t) (simp_all add: avatar_sample_def Let_def)

lemma generate_avatar_lookup:
  "generate_avatar ms a m k =
     (if k = avatar_key a
      then Some (fold (avatar_sample ms a) [0..ms - 1]
                   (case m k of None \<Rightarrow> empty_trajectory | Some t \<Rightarrow> t))
      else m k)"
  by (simp add: generate_avatar_def Let_def)

section \<open>Closed forms of a tick and of the run loop\<close>

lemma estimate_agent_id: "calculatePreferredVelocity s a T = calculatePreferredVelocity s 0 T"
  by (simp add: calculatePreferredVelocity_def)

lemma estimate_defined:
  assumes "0 \<le> currentStep s" and "currentStep s < 2 ^ 31"
    and "to_size_t (currentStep s) < vec_size (positions T)"
  shows "\<exists>v. calculatePreferredVelocity s a T = Inr v"
proof -
  let ?n = "int (length (positions T))"
  have c: "to_size_t (currentStep s) = currentStep s"
    using assms(1,2) by (intro to_size_t_id) auto
  with assms(3) have lt: "currentStep s < ?n"
    by (simp add: vec_size_def)
  show ?thesis
  proof (cases "to_size_t (currentStep s) \<ge> to_size_t (vec_size (positions T) - 1)")
    case True
    then show ?thesis by (simp add: calculatePreferredVelocity_def)
  next
    case False
    have "to_size_t (?n - 1) \<le> ?n - 1"
      unfolding to_size_t_def using lt assms(1) by (intro zmod_le_nonneg_dividend) auto
    with False c have next_lt: "currentStep s + 1 < ?n"
      by (simp add: vec_size_def)
    have "to_size_t (currentStep s + 1) = currentStep s + 1"
      using assms(1,2) by (intro to_size_t_id) auto
    with next_lt c lt False show ?thesis
      by (simp add: calculatePreferredVelocity_def vec_at_def vec_size_def)
  qed
qed

lemma estimate_sim [simp]:
  "calculatePreferredVelocity (s\<lparr>sim := r\<rparr>) a T = calculatePreferredVelocity s a T"
  by (simp add: calculatePreferredVelocity_def cong: sum.case_cong)

lemma estimate_for_sim [simp]: "estimate_for (s\<lparr>sim := r\<rparr>) mt = estimate_for s mt"
  by (simp add: estimate_for_def cong: option.case_cong if_cong)

lemma setAgentPrefVelocity_send:
  "h < length (agents r) \<Longrightarrow> setAgentPrefVelocity h v r = Inr (send h (Some v) r)"
  by (simp add: setAgentPrefVelocity_def send_def)

lemma length_agents_send [simp]: "length (agents (send h mv r)) = length (agents r)"
  by (simp add: send_def split: option.splits)

lemma length_agents_fold_send [simp]:
  "length (agents (fold (\<lambda>a. send (h a) (w a)) ks r)) = length (agents r)"
  by (induction ks arbitrary: r) simp_all

lemma update_avatar_closed:
  assumes "0 \<le> currentStep s" and "currentStep s < 2 ^ 31"
    and "nat a < length (agents (sim s))"
  shows "update_avatar a s =
     Inr (s\<lparr>sim := send (nat a) (estimate_for s (avatarData s (avatar_key a))) (sim s)\<rparr>)"
proof (cases "avatarData s (avatar_key a)")
  case None
  then show ?thesis by (simp add: update_avatar_def estimate_for_def send_def)
next
  case (Some T)
  show ?thesis
  proof (cases "to_size_t (currentStep s) < vec_size (positions T)")
    case True
    with assms(1,2) obtain v where "calculatePreferredVelocity s 0 T = Inr v"
      using estimate_defined [of s T 0] by blast
    with True Some assms(3) show ?thesis
      by (simp add: update_avatar_def estimate_for_def send_def setAgentPrefVelocity_def
          estimate_agent_id [of s a T])
  next
    case False
    with Some show ?thesis by (simp add: update_avatar_def estimate_for_def send_def)
  qed
qed

lemma update_participant_closed:
  assumes "0 \<le> currentStep s" and "currentStep s < 2 ^ 31"
    and "0 < length (agents (sim s))"
  shows "update_participant s =
     Inr (s\<lparr>sim := send 0 (estimate_for s (Some (participantData s))) (sim s)\<rparr>)"
proof (cases "to_size_t (currentStep s) < vec_size (positions (participantData s))")
  case True
  with assms(1,2) obtain v where "calculatePreferredVelocity s 0 (participantData s) = Inr v"
    using estimate_defined [of s "participantData s" 0] by blast
  with True assms(3) show ?thesis
    by (simp add: update_participant_def estimate_for_def send_def setAgentPrefVelocity_def)
next
  case False
  then show ?thesis by (simp add: update_participant_def estimate_for_def send_def)
qed

lemma for_each_update_avatar_closed:
  assumes "0 \<le> currentStep s" and "currentStep s < 2 ^ 31"
    and "list_all (\<lambda>a. nat a < length (agents (sim s))) ks"
  shows "for_each update_avatar ks s =
     Inr (s\<lparr>sim := fold (\<lambda>a. send (nat a) (estimate_for s (avatarData s (avatar_key a)))) ks (sim s)\<rparr>)"
  using assms
proof (induction ks arbitrary: s)
  case Nil
  then show ?case by simp
next
  case (Cons k ks)
  let ?s1 = "s\<lparr>sim := send (nat k) (estimate_for s (avatarData s (avatar_key k))) (sim s)\<rparr>"
  have 1: "update_avatar k s = Inr ?s1"
    using Cons.prems by (intro update_avatar_closed) auto
  have "for_each update_avatar ks ?s1 =
     Inr (?s1\<lparr>sim := fold (\<lambda>a. send (nat a) (estimate_for ?s1 (avatarData ?s1 (avatar_key a)))) ks (sim ?s1)\<rparr>)"
    using Cons.prems by (intro Cons.IH) auto
  with 1 show ?case by simp
qed

lemma updateAgentPositions_closed:
  assumes "0 \<le> currentStep s" and "currentStep s < 2 ^ 31"
    and "currentStep s < maxSteps s" and "11 < length (agents (sim s))"
  shows "updateAgentPositions s = Inr (s\<lparr>sim := prefs_sent s\<rparr>)"
proof -
  let ?s1 = "s\<lparr>sim := send 0 (estimate_for s (Some (participantData s))) (sim s)\<rparr>"
  have 1: "update_participant s = Inr ?s1"
    using assms by (intro update_participant_closed) auto
  have 2: "for_each update_avatar [1..10] ?s1 =
     Inr (?s1\<lparr>sim := fold (\<lambda>a. send (nat a) (estimate_for ?s1 (avatarData ?s1 (avatar_key a)))) [1..10] (sim ?s1)\<rparr>)"
    using assms by (intro for_each_update_avatar_closed) (auto simp: upto_1_10)
  show ?thesis
    using assms(3,4)
    by (simp add: updateAgentPositions_def 1 2 prefs_sent_def setAgentPrefVelocity_send)
qed

lemma collect_closed:
  "list_all (\<lambda>x. f x = Inr (g x)) xs \<Longrightarrow> collect f xs = Inr (map g xs)"
  by (induction xs) simp_all

lemma log_rows_closed: "log_rows s = Inr (map (row_of s) [0..<length (agents (sim s))])"
  unfolding log_rows_def getNumAgents_def
  by (rule collect_closed)
     (simp add: list_all_iff log_row_def getAgentPosition_def getAgentVelocity_def row_of_def)

lemma length_agents_doStep [simp]: "length (agents (doStep adv r)) = length (agents r)"
  by (simp add: doStep_def)

lemma length_agents_prefs_sent [simp]: "length (agents (prefs_sent s)) = length (agents (sim s))"
  by (simp add: prefs_sent_def)

lemma next_tick_fields [simp]:
  "currentStep (next_tick adv s) = currentStep s + 1"
  "maxSteps (next_tick adv s) = maxSteps s"
  "participantData (next_tick adv s) = participantData s"
  "avatarData (next_tick adv s) = avatarData s"
  "length (agents (sim (next_tick adv s))) = length (agents (sim s))"
  by (simp_all add: next_tick_def after_tick_def)

lemma ticks_fields [simp]:
  "currentStep (ticks adv k s) = currentStep s + int k"
  "maxSteps (ticks adv k s) = maxSteps s"
  "participantData (ticks adv k s) = participantData s"
  "avatarData (ticks adv k s) = avatarData s"
  "length (agents (sim (ticks adv k s))) = length (agents (sim s))"
  by (induction k) simp_all

lemma ticks_Suc_left: "ticks adv (Suc k) s = ticks adv k (next_tick adv s)"
  by (induction k) simp_all

lemma rows_of_ticks_Suc_left:
  "rows_of_ticks adv (Suc k) s = tick_rows adv s @ rows_of_ticks adv k (next_tick adv s)"
  by (induction k) (simp_all add: ticks_Suc_left del: ticks.simps(2))

lemma run_loop_done: "maxSteps s \<le> currentStep s \<Longrightarrow> run_loop adv s out = Inr (s, out)"
  by (simp add: run_loop.simps)

lemma run_loop_tick:
  assumes "0 \<le> currentStep s" and "currentStep s < maxSteps s" and "maxSteps s < 2 ^ 31"
    and "11 < length (agents (sim s))"
  shows "run_loop adv s out = run_loop adv (next_tick adv s) (out @ tick_rows adv s)"
proof -
  have "updateAgentPositions s = Inr (s\<lparr>sim := prefs_sent s\<rparr>)"
    using assms by (intro updateAgentPositions_closed) auto
  with assms(2) show ?thesis
    by (subst run_loop.simps)
       (simp add: log_rows_closed next_tick_def after_tick_def tick_rows_def Let_def)
qed

lemma run_loop_closed:
  assumes "0 \<le> currentStep s" and "currentStep s \<le> maxSteps s" and "maxSteps s < 2 ^ 31"
    and "11 < length (agents (sim s))" and "n = nat (maxSteps s - currentStep s)"
  shows "run_loop adv s out = Inr (ticks adv n s, out @ rows_of_ticks adv n s)"
  using assms
proof (induction n arbitrary: s out)
  case 0
  then show ?case by (simp add: run_loop_done)
next
  case (Suc n)
  then have lt: "currentStep s < maxSteps s" by simp
  have "run_loop adv s out = run_loop adv (next_tick adv s) (out @ tick_rows adv s)"
    using Suc.prems lt by (intro run_loop_tick) auto
  also have "\<dots> = Inr (ticks adv n (next_tick adv s),
      (out @ tick_rows adv s) @ rows_of_ticks adv n (next_tick adv s))"
    using Suc.prems lt by (intro Suc.IH) auto
  finally show ?case
    by (simp add: ticks_Suc_left rows_of_ticks_Suc_left del: ticks.simps(2) rows_of_ticks.simps(2))
qed

lemma runSimulation_closed:
  assumes "maxSteps s < 2 ^ 31" and "11 < length (agents (sim s))"
  shows "runSimulation adv s =
     Inr (ticks adv (nat (maxSteps s)) (s\<lparr>currentStep := 0\<rparr>),
          rows_of_ticks adv (nat (maxSteps s)) (s\<lparr>currentStep := 0\<rparr>))"
proof (cases "0 \<le> maxSteps s")
  case True
  with assms show ?thesis
    unfolding runSimulation_def
    using run_loop_closed [of "s\<lparr>currentStep := 0\<rparr>" "nat (maxSteps s)" adv "[]"] by simp
next
  case False
  then show ?thesis
    by (simp add: runSimulation_def run_loop_done)
qed

subsection \<open>The calls of a tick\<close>

lemma calls_send: "calls (send h mv r) = calls r @ sent_calls h mv"
  by (simp add: send_def sent_calls_def split: option.splits)

lemma calls_fold_send:
  "calls (fold (\<lambda>a. send (h a) (w a)) ks r) = calls r @ concat (map (\<lambda>a. sent_calls (h a) (w a)) ks)"
  by (induction ks arbitrary: r) (simp_all add: calls_send)

lemma calls_prefs_sent: "calls (prefs_sent s) = calls (sim s) @ tick_calls s"
  by (simp add: prefs_sent_def tick_calls_def calls_send calls_fold_send sent_calls_def)

lemma calls_next_tick: "calls (sim (next_tick adv s)) = calls (sim s) @ tick_calls s @ [DoStep]"
  by (simp add: next_tick_def after_tick_def doStep_def calls_prefs_sent)

lemma count_DoStep_sent_calls [simp]: "count_list (sent_calls h mv) DoStep = 0"
  by (simp add: sent_calls_def split: option.splits)

lemma count_DoStep_concat_sent_calls [simp]:
  "count_list (concat (map (\<lambda>a. sent_calls (h a) (w a)) ks)) DoStep = 0"
  by (induction ks) simp_all

lemma count_DoStep_tick_calls [simp]: "count_list (tick_calls s) DoStep = 0"
  by (simp add: tick_calls_def)

lemma count_DoStep_ticks:
  "count_list (calls (sim (ticks adv k s))) DoStep = count_list (calls (sim s)) DoStep + k"
  by (induction k) (simp_all add: calls_next_tick)

text \<open>
  Claim C6. For every tick budget \<open>B\<close>, the run invokes the oracle's advance exactly
  \<open>B\<close> times, whatever the lengths of the trajectories. Stated for every state in
  which the handles 0 to 11 the driver addresses are registered; there is no hypothesis
  on the trajectories.
\<close>

theorem run_advances_budget_times:
  assumes "maxSteps s < 2 ^ 31" and "11 < length (agents (sim s))"
  shows "\<exists>s' rows. runSimulation adv s = Inr (s', rows) \<and>
     count_list (calls (sim s')) DoStep = count_list (calls (sim s)) DoStep + nat (maxSteps s)"
  using assms by (simp add: runSimulation_closed count_DoStep_ticks)

theorem run_advances_budget_times_witness:
  "maxSteps twelve_idle < 2 ^ 31 \<and> 11 < length (agents (sim twelve_idle)) \<and>
   (\<exists>s' rows. runSimulation hold_still twelve_idle = Inr (s', rows) \<and>
      count_list (calls (sim s')) DoStep = 3)"
  using run_advances_budget_times [of twelve_idle hold_still]
  by (simp add: twelve_idle_def)

section \<open>Properties of the registration\<close>

lemma register_all_Nil [simp]: "register_all [] r = r"
  by (simp add: register_all_def List.map_filter_simps)

lemma register_all_Cons:
  "register_all (mp # ps) r =
     register_all ps (case mp of None \<Rightarrow> r | Some p \<Rightarrow> snd (addAgent p r))"
  by (cases mp) (simp_all add: register_all_def List.map_filter_simps addAgent_def new_agent_def)

lemma register_all_append:
  "register_all (ps @ qs) r = register_all qs (register_all ps r)"
  by (induction ps arbitrary: r) (simp_all add: register_all_Cons)

lemma setup_participant_closed:
  "setup_participant s = s\<lparr>sim := register_all [first_position (Some (participantData s))] (sim s)\<rparr>"
  by (simp add: setup_participant_def first_position_def register_all_Cons)

lemma setup_avatar_closed:
  "setup_avatar a s = s\<lparr>sim := register_all [avatar_start s a] (sim s)\<rparr>"
  by (simp add: setup_avatar_def avatar_start_def first_position_def register_all_Cons
      split: option.splits)

lemma avatar_start_sim [simp]: "avatar_start (s\<lparr>sim := r\<rparr>) = avatar_start s"
  by (rule ext) (simp add: avatar_start_def)

lemma fold_setup_avatar_closed:
  "fold setup_avatar ks s = s\<lparr>sim := register_all (map (avatar_start s) ks) (sim s)\<rparr>"
proof (induction ks arbitrary: s)
  case Nil
  then show ?case by simp
next
  case (Cons k ks)
  have "fold setup_avatar (k # ks) s = fold setup_avatar ks (setup_avatar k s)"
    by simp
  also have "\<dots> = (setup_avatar k s)
      \<lparr>sim := register_all (map (avatar_start (setup_avatar k s)) ks) (sim (setup_avatar k s))\<rparr>"
    by (rule Cons.IH)
  also have "\<dots> = s\<lparr>sim := register_all (map (avatar_start s) (k # ks)) (sim s)\<rparr>"
    by (simp add: setup_avatar_closed register_all_Cons)
  finally show ?case .
qed

lemma setupSimulation_closed:
  "setupSimulation s =
     Inr (s\<lparr>sim := (sim s)
            \<lparr>agents := agents (sim s) @ map (new_agent (sim s)) (start_positions s) @
                        [(new_agent (sim s) goalPos)\<lparr>maxSpeed := 0\<rparr>],
             calls := calls (sim s) @ map AddAgent (start_positions s) @
                      [AddAgent goalPos,
                       SetAgentMaxSpeed (length (agents (sim s)) + length (start_positions s)) 0]\<rparr>\<rparr>)"
proof -
  let ?ps = "first_position (Some (participantData s)) # map (avatar_start s) [1..10]"
  have "fold setup_avatar [1..10] (setup_participant s) = s\<lparr>sim := register_all ?ps (sim s)\<rparr>"
    by (simp add: fold_setup_avatar_closed setup_participant_closed register_all_Cons)
  then show ?thesis
    by (simp add: setupSimulation_def Let_def addAgent_def setAgentMaxSpeed_def register_all_def
        start_positions_def new_agent_def)
qed

lemma map_filter_id_append:
  "List.map_filter id (xs @ ys) = List.map_filter id xs @ List.map_filter id ys"
  by (simp add: List.map_filter_def)

lemma map_filter_id_absent:
  "list_all (\<lambda>a. f a = None) ks \<Longrightarrow> List.map_filter id (map f ks) = []"
  by (induction ks) simp_all

lemma map_filter_id_present:
  "list_all (\<lambda>a. f a \<noteq> None) ks \<Longrightarrow> map Some (List.map_filter id (map f ks)) = map f ks"
  by (induction ks) auto

lemma upto_1_10_split: "N \<le> 10 \<Longrightarrow> [1..10] = [1..int N] @ [int N + 1..10]"
  by (cases "N = 0") (simp_all add: upto_split2)

lemma start_positions_first_avatars:
  assumes "positions (participantData s) \<noteq> []" and "N \<le> 10"
    and "list_all (\<lambda>a. avatar_start s a \<noteq> None) [1..int N]"
    and "list_all (\<lambda>a. avatar_start s a = None) [int N + 1..10]"
  shows "map Some (start_positions s) =
     Some (positions (participantData s) ! 0) # map (avatar_start s) [1..int N]"
  using assms
  by (simp add: start_positions_def first_position_def upto_1_10_split [of N]
      map_filter_id_append map_filter_id_absent map_filter_id_present)

text \<open>
  Claim C3. After setup with one participant, \<open>N\<close> avatars and the goal agent, the
  handles \<open>0..N\<close> belong to the participant and the avatars \<open>1..N\<close> in this order, each
  registered at the tick-0 position of its trajectory, and the handle \<open>N + 1\<close> belongs to
  the goal agent, whose maximum speed has been set to 0. The code registers one goal
  agent and looks for the avatars 1 to 10; the oracle is new, so that handles start at 0.
\<close>

theorem registration_order:
  assumes "agents (sim s) = []"
    and "positions (participantData s) \<noteq> []" and "N \<le> 10"
    and "list_all (\<lambda>a. avatar_start s a \<noteq> None) [1..int N]"
    and "list_all (\<lambda>a. avatar_start s a = None) [int N + 1..10]"
  shows "\<exists>s'. setupSimulation s = Inr s' \<and>
     length (agents (sim s')) = N + 2 \<and>
     map (Some \<circ> position) (agents (sim s')) =
       Some (positions (participantData s) ! 0) # map (avatar_start s) [1..int N] @ [Some goalPos] \<and>
     map maxSpeed (agents (sim s')) = replicate (N + 1) (defaultMaxSpeed (sim s)) @ [0] \<and>
     calls (sim s') = calls (sim s) @ map (AddAgent \<circ> position) (agents (sim s')) @
       [SetAgentMaxSpeed (N + 1) 0]"
proof -
  have sp: "map Some (start_positions s) =
     Some (positions (participantData s) ! 0) # map (avatar_start s) [1..int N]"
    using assms(2-5) by (rule start_positions_first_avatars)
  then have "length (map Some (start_positions s)) = N + 1"
    by simp
  then have len: "length (start_positions s) = N + 1"
    by simp
  have pos: "map (Some \<circ> position \<circ> new_agent (sim s)) (start_positions s) =
      map Some (start_positions s)"
    by (simp add: new_agent_def)
  have ms: "map (maxSpeed \<circ> new_agent (sim s)) (start_positions s) =
      replicate (N + 1) (defaultMaxSpeed (sim s))"
    using len by (simp add: new_agent_def map_replicate_const comp_def)
  have ca: "map (AddAgent \<circ> position \<circ> new_agent (sim s)) (start_positions s) =
      map AddAgent (start_positions s)"
    by (simp add: new_agent_def)
  show ?thesis
    using assms(1) len sp
    by (simp add: setupSimulation_closed pos ms ca) (simp add: new_agent_def)
qed

lemma upto_1_2: "[1..2] = [1, 2 :: int]"
  by (subst upto.simps) simp

lemma upto_3_10: "[3..10] = [3, 4, 5, 6, 7, 8, 9, 10 :: int]"
  by simp

theorem registration_order_witness:
  "agents (sim two_avatars) = [] \<and> positions (participantData two_avatars) \<noteq> [] \<and>
   (2 :: nat) \<le> 10 \<and>
   list_all (\<lambda>a. avatar_start two_avatars a \<noteq> None) [1..int 2] \<and>
   list_all (\<lambda>a. avatar_start two_avatars a = None) [int 2 + 1..10] \<and>
   (\<exists>s'. setupSimulation two_avatars = Inr s' \<and>
      length (agents (sim s')) = 4 \<and>
      map (Some \<circ> position) (agents (sim s')) = [Some (1, 2), Some (3, 4), Some (5, 6), Some goalPos] \<and>
      map maxSpeed (agents (sim s')) = [MAX_SPEED, MAX_SPEED, MAX_SPEED, 0] \<and>
      calls (sim s') = calls (sim two_avatars) @ map (AddAgent \<circ> position) (agents (sim s')) @
        [SetAgentMaxSpeed 3 0])"
proof -
  have h: "agents (sim two_avatars) = []" "positions (participantData two_avatars) \<noteq> []"
    "(2 :: nat) \<le> 10"
    "list_all (\<lambda>a. avatar_start two_avatars a \<noteq> None) [1..int 2]"
    "list_all (\<lambda>a. avatar_start two_avatars a = None) [int 2 + 1..10]"
    by (simp_all add: two_avatars_def avatar_start_def first_position_def upto_1_2
        avatar_key_simps)
  have v: "map (avatar_start two_avatars) [1..int 2] = [Some (3, 4), Some (5, 6)]"
    by (simp add: two_avatars_def avatar_start_def first_position_def upto_1_2 avatar_key_simps)
  have d: "defaultMaxSpeed (sim two_avatars) = MAX_SPEED"
    "positions (participantData two_avatars) ! 0 = (1, 2)"
    by (simp_all add: two_avatars_def)
  show ?thesis
    using h registration_order [OF h] unfolding v d
    by (simp add: numeral_eq_Suc)
qed

section \<open>The synthetic run\<close>

lemma fold_participant_sample_positions:
  "positions (fold (participant_sample ms) is t) = positions t @ map (participant_position ms) is"
  by (induction "is" arbitrary: t)
     (simp_all add: participant_sample_def participant_position_def Let_def)

lemma fold_avatar_sample_positions:
  "positions (fold (avatar_sample ms a) is t) = positions t @ map (avatar_position ms a) is"
  by (induction "is" arbitrary: t)
     (simp_all add: avatar_sample_def avatar_position_def Let_def)

lemma loaded_fields:
  "maxSteps experiment_loaded = 500"
  "currentStep experiment_loaded = 0"
  "sim experiment_loaded = sim ExperimentSimulation_new"
  "participantData experiment_loaded =
     fold (participant_sample 500) [0..499] empty_trajectory"
  by (simp_all add: experiment_loaded_def loadTrajectoryData_def generateSampleData_def Let_def)

lemma loaded_avatars:
  "map (\<lambda>a. avatarData experiment_loaded (avatar_key a)) [1..10] =
   map (\<lambda>a. Some (fold (avatar_sample 500 a) [0..499] empty_trajectory)) [1..10]"
  by (simp add: experiment_loaded_def loadTrajectoryData_def generateSampleData_def Let_def
      upto_1_10 generate_avatar_lookup avatar_key_simps)

lemma loaded_avatar:
  assumes "a \<in> set [1..10]"
  shows "avatarData experiment_loaded (avatar_key a) =
     Some (fold (avatar_sample 500 a) [0..499] empty_trajectory)"
proof -
  from assms obtain i where "i < length [1..10 :: int]" and "[1..10] ! i = a"
    by (auto simp: in_set_conv_nth simp del: set_upto)
  with arg_cong [OF loaded_avatars, of "\<lambda>xs. xs ! i"] show ?thesis
    by (simp del: upto.simps)
qed

lemma loaded_participant_positions:
  "positions (participantData experiment_loaded) = map (participant_position 500) [0..499]"
  by (simp add: loaded_fields fold_participant_sample_positions)

lemma map_upto_first: "i \<le> j \<Longrightarrow> map f [i..j] \<noteq> [] \<and> map f [i..j] ! 0 = f i"
  by (simp add: upto_rec1)

lemma loaded_avatar_start:
  assumes "a \<in> set [1..10]"
  shows "avatar_start experiment_loaded a = Some (avatar_position 500 a 0)"
  using loaded_avatar [OF assms] map_upto_first [of 0 499 "avatar_position 500 a"]
  by (simp add: avatar_start_def first_position_def fold_avatar_sample_positions)

lemma loaded_start_positions:
  "start_positions experiment_loaded =
     participant_position 500 0 # map (\<lambda>a. avatar_position 500 a 0) [1..10]"
proof -
  have "map (avatar_start experiment_loaded) [1..10] =
      map (\<lambda>a. Some (avatar_position 500 a 0)) [1..10]"
    by (rule map_cong [OF refl]) (rule loaded_avatar_start)
  then show ?thesis
    using map_upto_first [of 0 499 "participant_position 500"]
    by (simp add: start_positions_def first_position_def loaded_participant_positions
        List.map_filter_def comp_def)
qed

lemma setup_loaded: "setupSimulation experiment_loaded = Inr experiment_ready"
  by (simp add: experiment_ready_def setupSimulation_closed)

lemma ready_eq:
  "experiment_ready =
     experiment_loaded\<lparr>sim := (sim experiment_loaded)
       \<lparr>agents := map (new_agent (sim experiment_loaded)) (start_positions experiment_loaded) @
                   [(new_agent (sim experiment_loaded) goalPos)\<lparr>maxSpeed := 0\<rparr>],
        calls := calls (sim experiment_loaded) @ map AddAgent (start_positions experiment_loaded) @
                 [AddAgent goalPos, SetAgentMaxSpeed 11 0]\<rparr>\<rparr>"
  by (simp add: experiment_ready_def setupSimulation_closed loaded_fields)
     (simp add: loaded_start_positions)

lemma ready_fields:
  "maxSteps experiment_ready = 500"
  "currentStep experiment_ready = 0"
  "participantData experiment_ready = participantData experiment_loaded"
  "avatarData experiment_ready = avatarData experiment_loaded"
  "timeStep (sim experiment_ready) = TIME_STEP"
  "length (agents (sim experiment_ready)) = 12"
  by (simp_all add: ready_eq loaded_fields loaded_start_positions)

lemma ready_participant:
  "agents (sim experiment_ready) ! 0 =
     \<lparr>position = participant_position 500 0, velocity = (0, 0), prefVelocity = (0, 0),
      maxSpeed = MAX_SPEED\<rparr>"
  by (simp add: ready_eq loaded_fields loaded_start_positions new_agent_def)

lemma ready_goal:
  "agents (sim experiment_ready) ! 11 =
     \<lparr>position = goalPos, velocity = (0, 0), prefVelocity = (0, 0), maxSpeed = 0\<rparr>"
  by (simp add: ready_eq loaded_fields loaded_start_positions new_agent_def nth_append upto_1_10)

lemma currentStep_same: "currentStep s = c \<Longrightarrow> s\<lparr>currentStep := c\<rparr> = s"
  by (cases s) simp

lemma main_closed:
  "main adv = Inr (0, [], rows_of_ticks adv 500 experiment_ready)"
proof -
  have "runSimulation adv experiment_ready =
      Inr (ticks adv 500 experiment_ready, rows_of_ticks adv 500 experiment_ready)"
    using runSimulation_closed [of experiment_ready adv]
    by (simp add: ready_fields currentStep_same)
  then show ?thesis
    using setup_loaded
    by (simp add: main_def Let_def loadTrajectoryData_def experiment_loaded_def)
qed

lemma dom_fold_generate_avatar:
  "dom (fold (generate_avatar ms) ks m) = set (map avatar_key ks) \<union> dom m"
  by (induction ks arbitrary: m) (auto simp: generate_avatar_def Let_def)

lemma generated_fields:
  "maxSteps (generateSampleData s) = 500"
  "positions (participantData (generateSampleData s)) =
     positions (participantData s) @ map (participant_position 500) [0..499]"
  "sample_counts (participantData (generateSampleData s)) =
     (length (positions (participantData s)) + 500, length (speeds (participantData s)) + 500,
      length (headings (participantData s)) + 500)"
  by (simp_all add: generateSampleData_def Let_def fold_participant_sample_positions
      sample_counts_def fold_participant_sample_length)

lemma generated_avatar_positions:
  "map (\<lambda>a. map_option positions (avatarData (generateSampleData s) (avatar_key a))) [1..10] =
   map (\<lambda>a. Some (positions (case avatarData s (avatar_key a) of
                                 None \<Rightarrow> empty_trajectory | Some t \<Rightarrow> t) @
                    map (avatar_position 500 a) [0..499])) [1..10]"
  by (simp add: generateSampleData_def Let_def upto_1_10 generate_avatar_lookup avatar_key_simps
      fold_avatar_sample_positions)

lemma generated_avatar_sample_counts:
  "map (\<lambda>a. map_option sample_counts (avatarData (generateSampleData s) (avatar_key a))) [1..10] =
   map (\<lambda>a. Some (sample_counts (fold (avatar_sample 500 a) [0..499]
                     (case avatarData s (avatar_key a) of
                        None \<Rightarrow> empty_trajectory | Some t \<Rightarrow> t)))) [1..10]"
  by (simp add: generateSampleData_def Let_def upto_1_10 generate_avatar_lookup avatar_key_simps)

text \<open>
  Claim C10. After the synthetic generation the participant trajectory and each of the
  ten avatar trajectories (the keys A1P to A10P, and no other) hold exactly \<open>maxSteps = 500\<close>
  samples: every trajectory is as long as the tick budget. Stated for the generation on
  the freshly constructed driver, as \<^verbatim>\<open>main\<close> runs it.
\<close>

theorem generated_trajectory_lengths:
  "maxSteps (generateSampleData ExperimentSimulation_new) = 500 \<and>
   sample_counts (participantData (generateSampleData ExperimentSimulation_new)) = (500, 500, 500) \<and>
   map (\<lambda>a. map_option sample_counts
               (avatarData (generateSampleData ExperimentSimulation_new) (avatar_key a))) [1..10] =
     replicate 10 (Some (500, 500, 500)) \<and>
   dom (avatarData (generateSampleData ExperimentSimulation_new)) = set (map avatar_key [1..10])"
proof -
  have "maxSteps (generateSampleData ExperimentSimulation_new) = 500"
    by (simp add: generateSampleData_def Let_def)
  moreover have
    "sample_counts (participantData (generateSampleData ExperimentSimulation_new)) = (500, 500, 500)"
    by (simp add: generateSampleData_def Let_def sample_counts_def fold_participant_sample_length)
  moreover have
    "map (\<lambda>a. map_option sample_counts
               (avatarData (generateSampleData ExperimentSimulation_new) (avatar_key a))) [1..10] =
     replicate 10 (Some (500, 500, 500))"
    by (simp add: generateSampleData_def Let_def upto_1_10 generate_avatar_lookup avatar_key_simps
        sample_counts_def fold_avatar_sample_length numeral_eq_Suc)
  moreover have
    "dom (avatarData (generateSampleData ExperimentSimulation_new)) = set (map avatar_key [1..10])"
    by (simp add: generateSampleData_def Let_def dom_fold_generate_avatar del: set_map)
  ultimately show ?thesis by blast
qed

section \<open>Running without setup\<close>

text \<open>
  With the data loaded and no setup, the first tick addresses the handle 0 of an oracle
  that has no agent.
\<close>

lemma tick_after_load_without_setup:
  "updateAgentPositions experiment_loaded = Inl InvalidHandle"
proof -
  have "to_size_t (currentStep experiment_loaded) <
      vec_size (positions (participantData experiment_loaded))"
    by (simp add: loaded_fields(2) loaded_participant_positions to_size_t_def vec_size_def)
  moreover from this obtain v
    where "calculatePreferredVelocity experiment_loaded 0 (participantData experiment_loaded) = Inr v"
    using estimate_defined [of experiment_loaded "participantData experiment_loaded" 0]
    by (auto simp: loaded_fields(2))
  ultimately have "update_participant experiment_loaded = Inl InvalidHandle"
    by (simp add: update_participant_def setAgentPrefVelocity_def loaded_fields(3))
  then show ?thesis
    by (simp add: updateAgentPositions_def loaded_fields(1,2))
qed

text \<open>
  Claim C5 says that, setup never called, the tick and the run operation fail with
  NotInitialized. On the freshly constructed driver both return normally.
\<close>

theorem run_without_setup_succeeds:
  "updateAgentPositions ExperimentSimulation_new = Inr ExperimentSimulation_new \<and>
   runSimulation hold_still ExperimentSimulation_new = Inr (ExperimentSimulation_new, [])"
  by (simp add: updateAgentPositions_def runSimulation_def run_loop_done currentStep_same)

text \<open>
  Claim C5, amended. The driver makes no initialization check. While setup has not been
  called and no data has been loaded (the tick budget is 0), the tick operation returns
  at once and leaves the oracle as it is, and the run operation completes with no tick
  and no record.
\<close>

theorem no_initialization_check:
  assumes "agents (sim s) = []" and "maxSteps s = 0" and "currentStep s = 0"
  shows "updateAgentPositions s = Inr s \<and> runSimulation adv s = Inr (s, [])"
  using assms
  by (simp add: updateAgentPositions_def runSimulation_def run_loop_done currentStep_same)

theorem no_initialization_check_witness:
  "agents (sim (ExperimentSimulation_new\<lparr>subject := 3\<rparr>)) = [] \<and>
   maxSteps (ExperimentSimulation_new\<lparr>subject := 3\<rparr>) = 0 \<and>
   currentStep (ExperimentSimulation_new\<lparr>subject := 3\<rparr>) = 0 \<and>
   updateAgentPositions (ExperimentSimulation_new\<lparr>subject := 3\<rparr>) =
     Inr (ExperimentSimulation_new\<lparr>subject := 3\<rparr>) \<and>
   runSimulation hold_still (ExperimentSimulation_new\<lparr>subject := 3\<rparr>) =
     Inr (ExperimentSimulation_new\<lparr>subject := 3\<rparr>, [])"
  using no_initialization_check [of "ExperimentSimulation_new\<lparr>subject := 3\<rparr>" hold_still]
  by simp

section \<open>The emitted records\<close>

lemma tick_rows_keys:
  "map (\<lambda>r. (row_step r, row_agent_id r)) (tick_rows adv s) =
     (if currentStep s mod 10 = 0
      then map (\<lambda>i. (currentStep s, i)) [0..<length (agents (sim s))] else [])"
  by (simp add: tick_rows_def row_of_def after_tick_def comp_def)

lemma rows_of_ticks_keys:
  "map (\<lambda>r. (row_step r, row_agent_id r)) (rows_of_ticks adv k s) =
     concat (map (\<lambda>t. map (\<lambda>i. (t, i)) [0..<length (agents (sim s))])
                 (filter (\<lambda>t. t mod 10 = 0) [currentStep s..currentStep s + int k - 1]))"
proof (induction k)
  case 0
  then show ?case by simp
next
  case (Suc k)
  have "[currentStep s..currentStep s + int (Suc k) - 1] =
      [currentStep s..currentStep s + int k - 1] @ [currentStep s + int k]"
    using upto_rec2 [of "currentStep s" "currentStep s + int k"] by simp
  with Suc show ?case
    by (simp add: tick_rows_keys)
qed

lemma sampled_ticks_count:
  "length (filter (\<lambda>t. t mod 10 = 0) [0..int B - 1]) = (B + 9) div 10"
proof (induction B)
  case 0
  then show ?case by simp
next
  case (Suc B)
  have "[0..int (Suc B) - 1] = [0..int B - 1] @ [int B]"
    using upto_rec2 [of 0 "int B"] by simp
  moreover have "(Suc B + 9) div 10 = (B + 9) div 10 + (if int B mod 10 = 0 then 1 else 0)"
    by (simp add: zmod_int [symmetric]) presburger
  ultimately show ?case
    using Suc by simp
qed

lemma length_concat_keys:
  "length (concat (map (\<lambda>t. map (f t) [0..<n]) ts)) = length ts * n"
  by (induction ts) simp_all

lemma length_rows_of_ticks:
  "length (rows_of_ticks adv k s) =
     length (filter (\<lambda>t. t mod 10 = 0) [currentStep s..currentStep s + int k - 1]) *
     length (agents (sim s))"
  using arg_cong [OF rows_of_ticks_keys [of adv k s], of length]
  by (simp add: length_concat_keys)

lemma hd_rows_of_ticks:
  assumes "currentStep s mod 10 = 0" and "agents (sim s) \<noteq> []" and "0 < k"
  shows "hd (rows_of_ticks adv k s) = row_of (after_tick adv s) 0"
proof -
  from assms(3) obtain j where "k = Suc j"
    by (cases k) auto
  moreover have "tick_rows adv s \<noteq> []" "hd (tick_rows adv s) = row_of (after_tick adv s) 0"
    using assms(1,2) by (simp_all add: tick_rows_def hd_map upt_conv_Cons)
  ultimately show ?thesis
    by (simp add: rows_of_ticks_Suc_left del: rows_of_ticks.simps(2))
qed

subsection \<open>Loading\<close>

text \<open>
  Claim C9. \<^verbatim>\<open>loadTrajectoryData\<close> returns true for every data path and ignores the path:
  whatever the path, it generates the synthetic data, that is, it sets \<open>maxSteps\<close> to 500
  and appends the 500 generated samples to the participant trajectory and to each of the
  trajectories A1P to A10P. So \<^verbatim>\<open>main\<close> never takes the branch that prints the warning:
  it returns with an empty error stream and the 600 rows of the run.
\<close>

theorem load_ignores_path:
  "loadTrajectoryData dataPath s = (True, generateSampleData s) \<and>
   loadTrajectoryData dataPath s = loadTrajectoryData otherPath s \<and>
   maxSteps (snd (loadTrajectoryData dataPath s)) = 500 \<and>
   positions (participantData (snd (loadTrajectoryData dataPath s))) =
     positions (participantData s) @ map (participant_position 500) [0..499] \<and>
   sample_counts (participantData (snd (loadTrajectoryData dataPath s))) =
     (length (positions (participantData s)) + 500, length (speeds (participantData s)) + 500,
      length (headings (participantData s)) + 500) \<and>
   map (\<lambda>a. map_option positions
               (avatarData (snd (loadTrajectoryData dataPath s)) (avatar_key a))) [1..10] =
     map (\<lambda>a. Some (positions (case avatarData s (avatar_key a) of
                                   None \<Rightarrow> empty_trajectory | Some t \<Rightarrow> t) @
                      map (avatar_position 500 a) [0..499])) [1..10] \<and>
   dom (avatarData (snd (loadTrajectoryData dataPath s))) =
     set (map avatar_key [1..10]) \<union> dom (avatarData s) \<and>
   (\<exists>rows. main adv = Inr (0, [], rows) \<and> length rows = 600)"
proof -
  have d: "dom (avatarData (generateSampleData s)) =
      set (map avatar_key [1..10]) \<union> dom (avatarData s)"
    by (simp add: generateSampleData_def Let_def dom_fold_generate_avatar del: set_map)
  have "length (filter (\<lambda>t. t mod 10 = 0) [0..499 :: int]) = 50"
    using sampled_ticks_count [of 500] by simp
  then have r: "length (rows_of_ticks adv 500 experiment_ready) = 600"
    using length_rows_of_ticks [of adv 500 experiment_ready] by (simp add: ready_fields)
  show ?thesis
    using r
    by (simp add: loadTrajectoryData_def main_closed generated_fields generated_avatar_positions d
        del: set_map)
qed

subsection \<open>The first tick of the synthetic run\<close>

lemma agents_send_nth:
  "agents (send h mv r) ! j =
     (if j = h \<and> h < length (agents r)
      then (case mv of None \<Rightarrow> agents r ! j | Some v \<Rightarrow> (agents r ! j)\<lparr>prefVelocity := v\<rparr>)
      else agents r ! j)"
  by (auto simp: send_def list_update_beyond split: option.splits)

lemma timeStep_send: "timeStep (send h mv r) = timeStep r"
  by (simp add: send_def split: option.splits)

lemma timeStep_fold_send: "timeStep (fold (\<lambda>a. send (h a) (w a)) ks r) = timeStep r"
  by (induction ks arbitrary: r) (simp_all add: timeStep_send)

lemma agents_fold_send_other:
  "list_all (\<lambda>a. h a \<noteq> j) ks \<Longrightarrow>
     agents (fold (\<lambda>a. send (h a) (w a)) ks r) ! j = agents r ! j"
  by (induction ks arbitrary: r) (simp_all add: agents_send_nth)

lemma prefs_sent_participant:
  assumes "11 < length (agents (sim s))"
  shows "agents (prefs_sent s) ! 0 =
     (case estimate_for s (Some (participantData s)) of
        None \<Rightarrow> agents (sim s) ! 0
      | Some v \<Rightarrow> (agents (sim s) ! 0)\<lparr>prefVelocity := v\<rparr>)"
  using assms
  by (auto simp: prefs_sent_def agents_send_nth agents_fold_send_other upto_1_10)

lemma ready_first_estimate:
  "estimate_for experiment_ready (Some (participantData experiment_ready)) =
     Some (vec_div (vec_sub (participant_position 500 1) (participant_position 500 0)) TIME_STEP)"
proof -
  have "map (participant_position 500) [0..499] ! nat 1 = participant_position 500 1"
    "map (participant_position 500) [0..499] ! nat 0 = participant_position 500 0"
    by (simp_all add: nth_upto)
  then show ?thesis
    using estimate_nonempty [of experiment_ready "participantData experiment_ready" 0]
    by (simp add: estimate_for_def ready_fields loaded_participant_positions
        to_size_t_def vec_size_def)
qed

lemma ready_participant_before_advance:
  "agents (prefs_sent experiment_ready) ! 0 =
     \<lparr>position = participant_position 500 0, velocity = (0, 0),
      prefVelocity =
        vec_div (vec_sub (participant_position 500 1) (participant_position 500 0)) TIME_STEP,
      maxSpeed = MAX_SPEED\<rparr>"
  by (simp add: prefs_sent_participant ready_fields(6) ready_first_estimate ready_participant)

lemma first_sample: "positions (participantData experiment_ready) ! 0 = (15, 10)"
  using map_upto_first [of 0 499 "participant_position 500"]
  by (simp add: ready_fields loaded_participant_positions participant_position_def
      MIN_X_def MIN_Y_def)

lemma ready_agents_nonempty: "agents (sim experiment_ready) \<noteq> []"
  using ready_fields(6) by auto

lemma first_row_position:
  assumes "0 < length (agents (sim s))"
  shows "(row_x (row_of (after_tick adv s) 0), row_y (row_of (after_tick adv s) 0)) =
     fst (adv (timeStep (sim s)) (agents (prefs_sent s)) 0)"
proof -
  have "timeStep (prefs_sent s) = timeStep (sim s)"
    by (simp add: prefs_sent_def timeStep_send timeStep_fold_send)
  with assms show ?thesis
    by (simp add: row_of_def after_tick_def doStep_def advance_agent_def upt_conv_Cons)
qed

lemma snd_clamp_speed_pos:
  assumes "0 < snd v" and "0 < m"
  shows "0 < snd (clamp_speed v m)"
proof (cases "vec_abs v > m")
  case True
  with assms(2) have "0 < vec_abs v" by simp
  with True assms show ?thesis by (simp add: clamp_speed_def)
next
  case False
  with assms(1) show ?thesis by (simp add: clamp_speed_def)
qed

text \<open>
  Claim C7 says that in the synthetic run the row with step 0 of the participant holds
  the position of sample 0 of the participant's trajectory. The row is written after the
  first advance: with the sample oracle the participant has moved off sample 0 by then.
\<close>

theorem first_row_after_first_advance:
  "\<exists>rows. main free_motion = Inr (0, [], rows) \<and>
     row_step (hd rows) = 0 \<and> row_agent_id (hd rows) = 0 \<and>
     positions (participantData experiment_ready) ! 0 = (15, 10) \<and>
     10 < row_y (hd rows)"
proof -
  let ?rows = "rows_of_ticks free_motion 500 experiment_ready"
  let ?pref = "vec_div (vec_sub (participant_position 500 1) (participant_position 500 0)) TIME_STEP"
  have hd: "hd ?rows = row_of (after_tick free_motion experiment_ready) 0"
    by (rule hd_rows_of_ticks) (simp_all add: ready_fields ready_agents_nonempty)
  have "0 < snd ?pref"
    by (simp add: vec_div_def vec_sub_def participant_position_def TIME_STEP_def
        MIN_Y_def MAX_Y_def)
  then have "0 < snd (clamp_speed ?pref MAX_SPEED)"
    by (rule snd_clamp_speed_pos) (simp add: MAX_SPEED_def)
  then have "10 < snd (fst (free_motion TIME_STEP (agents (prefs_sent experiment_ready)) 0))"
    by (simp add: free_motion_def Let_def ready_participant_before_advance
        participant_position_def MIN_Y_def TIME_STEP_def)
  moreover have "(row_x (hd ?rows), row_y (hd ?rows)) =
      fst (free_motion TIME_STEP (agents (prefs_sent experiment_ready)) 0)"
    unfolding hd using first_row_position [of experiment_ready free_motion]
    by (simp add: ready_fields)
  ultimately have "10 < row_y (hd ?rows)"
    by (metis snd_conv)
  moreover have "row_step (hd ?rows) = 0" "row_agent_id (hd ?rows) = 0"
    unfolding hd by (simp_all add: row_of_def after_tick_def ready_fields)
  ultimately show ?thesis
    by (simp add: main_closed first_sample)
qed

text \<open>
  Claim C7, amended. In the synthetic run (\<open>dt = 1/90\<close>, \<open>maxSteps = 500\<close>, sampling every 10
  ticks, twelve registered agents) the output holds the 50 sampled ticks 0, 10, ..., 490
  in order, with one row per registered agent at each, 600 rows in all. The first row is
  the participant's row with step 0; its position is the one the oracle reports after
  the first advance, which it starts with the participant at sample 0.
\<close>

theorem synthetic_run_rows:
  "\<exists>rows. main adv = Inr (0, [], rows) \<and>
     map (\<lambda>r. (row_step r, row_agent_id r)) rows =
       concat (map (\<lambda>t. map (\<lambda>i. (t, i)) [0..<12]) (filter (\<lambda>t. t mod 10 = 0) [0..499])) \<and>
     length (filter (\<lambda>t. t mod 10 = 0) [0..499 :: int]) = 50 \<and>
     length rows = 50 * 12 \<and>
     position (agents (prefs_sent experiment_ready) ! 0) =
       positions (participantData experiment_ready) ! 0 \<and>
     (row_x (hd rows), row_y (hd rows)) =
       fst (adv TIME_STEP (agents (prefs_sent experiment_ready)) 0)"
proof -
  let ?rows = "rows_of_ticks adv 500 experiment_ready"
  have count: "length (filter (\<lambda>t. t mod 10 = 0) [0..499 :: int]) = 50"
    using sampled_ticks_count [of 500] by simp
  have keys: "map (\<lambda>r. (row_step r, row_agent_id r)) ?rows =
      concat (map (\<lambda>t. map (\<lambda>i. (t, i)) [0..<12]) (filter (\<lambda>t. t mod 10 = 0) [0..499]))"
    using rows_of_ticks_keys [of adv 500 experiment_ready] by (simp add: ready_fields)
  have len: "length ?rows = 50 * 12"
    using length_rows_of_ticks [of adv 500 experiment_ready] count by (simp add: ready_fields)
  have hd: "hd ?rows = row_of (after_tick adv experiment_ready) 0"
    by (rule hd_rows_of_ticks) (simp_all add: ready_fields ready_agents_nonempty)
  have pos: "(row_x (hd ?rows), row_y (hd ?rows)) =
      fst (adv TIME_STEP (agents (prefs_sent experiment_ready)) 0)"
    unfolding hd using first_row_position [of experiment_ready adv]
    by (simp add: ready_fields)
  have start: "position (agents (prefs_sent experiment_ready) ! 0) =
      positions (participantData experiment_ready) ! 0"
    using map_upto_first [of 0 499 "participant_position 500"]
    by (simp add: ready_participant_before_advance ready_fields loaded_participant_positions)
  show ?thesis
    unfolding main_closed using keys count len pos start by blast
qed

section \<open>The goal agent\<close>

lemma clamp_speed_bound:
  "fst (clamp_speed v m) * fst (clamp_speed v m) + snd (clamp_speed v m) * snd (clamp_speed v m)
     \<le> m * m"
proof -
  let ?q = "fst v * fst v + snd v * snd v"
  have q: "0 \<le> ?q" by simp
  have r: "vec_abs v * vec_abs v = ?q"
    using q by (simp add: vec_abs_def)
  show ?thesis
  proof (cases "vec_abs v > m")
    case True
    show ?thesis
    proof (cases "vec_abs v = 0")
      case True
      with \<open>vec_abs v > m\<close> show ?thesis by (simp add: clamp_speed_def)
    next
      case False
      have "fst v / vec_abs v * m * (fst v / vec_abs v * m) +
            snd v / vec_abs v * m * (snd v / vec_abs v * m) =
            ?q * (m * m) / (vec_abs v * vec_abs v)"
        by (simp add: algebra_simps add_divide_distrib)
      also have "\<dots> = (vec_abs v * vec_abs v) * (m * m) / (vec_abs v * vec_abs v)"
        by (simp only: r)
      also have "\<dots> = m * m"
        using False by simp
      finally show ?thesis
        using True by (simp add: clamp_speed_def)
    qed
  next
    case False
    have "0 \<le> vec_abs v" by (simp add: vec_abs_def)
    with False have "vec_abs v * vec_abs v \<le> m * m"
      by (intro mult_mono) auto
    with False r show ?thesis by (simp add: clamp_speed_def)
  qed
qed

lemma free_motion_respects_max_speed: "respects_max_speed free_motion"
  by (simp add: respects_max_speed_def free_motion_def Let_def clamp_speed_bound)

lemma hold_still_respects_max_speed: "respects_max_speed hold_still"
  by (simp add: respects_max_speed_def hold_still_def)

lemma maxSpeed_update_nth:
  "maxSpeed (as[h := (as ! h)\<lparr>prefVelocity := v\<rparr>] ! i) = maxSpeed (as ! i)"
  by (cases "h < length as") (simp_all add: nth_list_update list_update_beyond)

lemma map_maxSpeed_send: "map maxSpeed (agents (send h mv r)) = map maxSpeed (agents r)"
  by (cases mv) (auto simp: send_def maxSpeed_update_nth intro!: nth_equalityI)

lemma map_maxSpeed_fold_send:
  "map maxSpeed (agents (fold (\<lambda>a. send (h a) (w a)) ks r)) = map maxSpeed (agents r)"
  by (induction ks arbitrary: r) (simp_all add: map_maxSpeed_send)

lemma map_maxSpeed_prefs_sent: "map maxSpeed (agents (prefs_sent s)) = map maxSpeed (agents (sim s))"
  by (simp add: prefs_sent_def map_maxSpeed_send map_maxSpeed_fold_send)

lemma map_maxSpeed_doStep: "map maxSpeed (agents (doStep adv r)) = map maxSpeed (agents r)"
  by (auto simp: doStep_def advance_agent_def intro!: nth_equalityI)

lemma map_maxSpeed_ticks:
  "map maxSpeed (agents (sim (ticks adv k s))) = map maxSpeed (agents (sim s))"
  by (induction k)
     (simp_all add: next_tick_def after_tick_def map_maxSpeed_doStep map_maxSpeed_prefs_sent)

lemma maxSpeed_nth_cong:
  assumes "map maxSpeed xs = map maxSpeed ys" and "j < length ys"
  shows "maxSpeed (xs ! j) = maxSpeed (ys ! j)"
proof -
  from assms(1) have "length xs = length ys"
    by (rule map_eq_imp_length_eq)
  with assms show ?thesis
    by (metis nth_map)
qed

lemma goal_velocity_after_tick:
  assumes "respects_max_speed adv" and "11 < length (agents (sim s))"
    and "maxSpeed (agents (sim s) ! 11) = 0"
  shows "velocity (agents (sim (after_tick adv s)) ! 11) = (0, 0)"
proof -
  let ?as = "agents (prefs_sent s)"
  let ?v = "snd (adv (timeStep (prefs_sent s)) ?as 11)"
  have "maxSpeed (?as ! 11) = 0"
    using maxSpeed_nth_cong [OF map_maxSpeed_prefs_sent assms(2)] assms(3) by simp
  moreover have "11 < length ?as"
    using assms(2) by simp
  ultimately have "fst ?v * fst ?v + snd ?v * snd ?v \<le> 0"
    using assms(1) unfolding respects_max_speed_def by (metis mult_zero_left)
  then have "fst ?v = 0 \<and> snd ?v = 0"
    by (simp add: sum_squares_le_zero_iff)
  then have "?v = (0, 0)"
    by (simp add: prod_eq_iff)
  with assms(2) show ?thesis
    by (simp add: after_tick_def doStep_def advance_agent_def)
qed

lemma goal_at_rest_tick_rows:
  assumes "respects_max_speed adv" and "11 < length (agents (sim s))"
    and "maxSpeed (agents (sim s) ! 11) = 0"
  shows "list_all goal_at_rest (tick_rows adv s)"
  using goal_velocity_after_tick [OF assms]
  by (auto simp: tick_rows_def list_all_iff goal_at_rest_def row_of_def)

lemma goal_at_rest_rows_of_ticks:
  assumes "respects_max_speed adv" and "11 < length (agents (sim s))"
    and "maxSpeed (agents (sim s) ! 11) = 0"
  shows "list_all goal_at_rest (rows_of_ticks adv k s)"
proof (induction k)
  case 0
  then show ?case by simp
next
  case (Suc k)
  have "maxSpeed (agents (sim (ticks adv k s)) ! 11) = 0"
    using maxSpeed_nth_cong [OF map_maxSpeed_ticks assms(2)] assms(3) by simp
  with assms(1,2) have "list_all goal_at_rest (tick_rows adv (ticks adv k s))"
    by (intro goal_at_rest_tick_rows) simp_all
  with Suc show ?case by simp
qed

lemma calls_ticks: "calls (sim (ticks adv k s)) = calls (sim s) @ calls_of_ticks adv k s"
  by (induction k) (simp_all add: calls_of_ticks_def calls_next_tick)

lemma goal_pref_zero_sent_calls: "h \<noteq> 11 \<Longrightarrow> list_all goal_pref_zero (sent_calls h mv)"
  by (cases mv) (simp_all add: sent_calls_def goal_pref_zero_def)

lemma goal_pref_zero_tick_calls: "list_all goal_pref_zero (tick_calls s)"
proof -
  have "list_all goal_pref_zero
      (concat (map (\<lambda>a. sent_calls (nat a) (estimate_for s (avatarData s (avatar_key a)))) [1..10]))"
    unfolding upto_1_10 by (simp add: goal_pref_zero_sent_calls)
  then show ?thesis
    by (simp add: tick_calls_def goal_pref_zero_sent_calls) (simp add: goal_pref_zero_def)
qed

lemma goal_pref_zero_calls_of_ticks: "list_all goal_pref_zero (calls_of_ticks adv k s)"
  by (induction k)
     (simp_all add: calls_of_ticks_def goal_pref_zero_tick_calls, simp add: goal_pref_zero_def)

text \<open>
  Claim C8. The goal agent is never given a preferred velocity other than zero, and its
  velocity is \<open>(0, 0)\<close> in every emitted record. The goal agent is the handle 11 the driver
  addresses, registered with maximum speed 0; its velocity is the oracle's to compute,
  and zero for every oracle that honours the maximum speed.
\<close>

theorem goal_agent_at_rest:
  assumes "maxSteps s < 2 ^ 31" and "11 < length (agents (sim s))"
    and "maxSpeed (agents (sim s) ! 11) = 0" and "respects_max_speed adv"
  shows "\<exists>s' rows new. runSimulation adv s = Inr (s', rows) \<and>
     list_all goal_at_rest rows \<and>
     calls (sim s') = calls (sim s) @ new \<and> list_all goal_pref_zero new"
proof -
  let ?s0 = "s\<lparr>currentStep := 0\<rparr>"
  let ?k = "nat (maxSteps s)"
  have "runSimulation adv s = Inr (ticks adv ?k ?s0, rows_of_ticks adv ?k ?s0)"
    using assms(1,2) by (rule runSimulation_closed)
  moreover have "list_all goal_at_rest (rows_of_ticks adv ?k ?s0)"
    using assms(2-4) by (intro goal_at_rest_rows_of_ticks) simp_all
  moreover have "calls (sim (ticks adv ?k ?s0)) = calls (sim s) @ calls_of_ticks adv ?k ?s0"
    using calls_ticks [of adv ?k ?s0] by simp
  moreover have "list_all goal_pref_zero (calls_of_ticks adv ?k ?s0)"
    by (rule goal_pref_zero_calls_of_ticks)
  ultimately show ?thesis by blast
qed

theorem goal_agent_at_rest_witness:
  "maxSteps experiment_ready < 2 ^ 31 \<and> 11 < length (agents (sim experiment_ready)) \<and>
   maxSpeed (agents (sim experiment_ready) ! 11) = 0 \<and> respects_max_speed free_motion \<and>
   (\<exists>s' rows new. runSimulation free_motion experiment_ready = Inr (s', rows) \<and>
      list_all goal_at_rest rows \<and>
      calls (sim s') = calls (sim experiment_ready) @ new \<and> list_all goal_pref_zero new)"
proof -
  have h: "maxSteps experiment_ready < 2 ^ 31" "11 < length (agents (sim experiment_ready))"
    "maxSpeed (agents (sim experiment_ready) ! 11) = 0" "respects_max_speed free_motion"
    by (simp_all add: ready_fields ready_goal free_motion_respects_max_speed)
  show ?thesis
    using h goal_agent_at_rest [OF h] by blast
qed

section \<open>The preferred velocities at every tick\<close>

lemma tick_start_fields [simp]:
  "currentStep (tick_start adv s k) = int k"
  "maxSteps (tick_start adv s k) = maxSteps s"
  "participantData (tick_start adv s k) = participantData s"
  "avatarData (tick_start adv s k) = avatarData s"
  "length (agents (sim (tick_start adv s k))) = length (agents (sim s))"
  by (simp_all add: tick_start_def)

lemma trajectory_of_tick_start [simp]:
  "trajectory_of (tick_start adv s k) h = trajectory_of s h"
  by (simp add: trajectory_of_def)

lemma agents_send_with_pref:
  "agents (send h mv r) ! j =
     (if j = h \<and> h < length (agents r) then with_pref mv (agents r ! j) else agents r ! j)"
  by (auto simp: agents_send_nth with_pref_def)

lemma agents_prefs_sent_with_pref:
  assumes "11 < length (agents (sim s))" and "h \<le> 10"
  shows "agents (prefs_sent s) ! h = with_pref (estimate_for s (trajectory_of s h)) (agents (sim s) ! h)"
proof -
  from assms(2) have "h = 0 \<or> h = 1 \<or> h = 2 \<or> h = 3 \<or> h = 4 \<or> h = 5 \<or> h = 6 \<or> h = 7
      \<or> h = 8 \<or> h = 9 \<or> h = 10"
    by presburger
  then consider "h = 0" | "h = 1" | "h = 2" | "h = 3" | "h = 4" | "h = 5"
    | "h = 6" | "h = 7" | "h = 8" | "h = 9" | "h = 10"
    by blast
  then show ?thesis
    using assms(1)
    by cases (auto simp: prefs_sent_def upto_1_10 agents_send_with_pref trajectory_of_def)
qed

lemma agents_prefs_sent_nth:
  assumes "11 < length (agents (sim s))" and "h \<le> 10"
  shows "agents (prefs_sent s) ! h =
     (case estimate_for s (trajectory_of s h) of
        None \<Rightarrow> agents (sim s) ! h
      | Some v \<Rightarrow> (agents (sim s) ! h)\<lparr>prefVelocity := v\<rparr>)"
  using agents_prefs_sent_with_pref [OF assms] by (simp add: with_pref_def)

lemma prefVelocity_goal_prefs_sent:
  "11 < length (agents (sim s)) \<Longrightarrow> prefVelocity (agents (prefs_sent s) ! 11) = (0, 0)"
  by (simp add: prefs_sent_def agents_send_nth)

lemma prefVelocity_after_tick:
  "h < length (agents (sim s)) \<Longrightarrow>
     prefVelocity (agents (sim (next_tick adv s)) ! h) = prefVelocity (agents (prefs_sent s) ! h)"
  by (simp add: next_tick_def after_tick_def doStep_def advance_agent_def)

lemma estimate_exhausted:
  assumes "0 \<le> currentStep s" and "currentStep s < 2 ^ 31"
    and "positions T \<noteq> []" and "int (length (positions T)) - 1 \<le> currentStep s"
  shows "calculatePreferredVelocity s a T = Inr (0, 0)"
proof -
  let ?n = "int (length (positions T))"
  have "to_size_t (currentStep s) = currentStep s"
    using assms(1,2) by (intro to_size_t_id) auto
  moreover have "0 \<le> ?n - 1"
    using assms(3) by (simp add: Suc_le_eq)
  then have "to_size_t (?n - 1) \<le> ?n - 1"
    unfolding to_size_t_def by (intro zmod_le_nonneg_dividend)
  ultimately show ?thesis
    using assms(4) by (simp add: calculatePreferredVelocity_def vec_size_def)
qed

lemma estimate_for_in_range:
  assumes "0 \<le> currentStep s" and "currentStep s < 2 ^ 31"
    and "currentStep s < int (length (positions T))"
  shows "\<exists>v. estimate_for s (Some T) = Some v \<and> calculatePreferredVelocity s a T = Inr v"
proof -
  have c: "to_size_t (currentStep s) < vec_size (positions T)"
    using assms by (simp add: to_size_t_id vec_size_def)
  with assms(1,2) obtain v where "calculatePreferredVelocity s 0 T = Inr v"
    using estimate_defined [of s T 0] by blast
  with c show ?thesis
    by (simp add: estimate_for_def estimate_agent_id [of s a T])
qed

lemma estimate_for_exhausted:
  assumes "0 \<le> currentStep s" and "currentStep s < 2 ^ 31"
    and "int (length (positions T)) \<le> currentStep s"
  shows "estimate_for s (Some T) = None"
  using assms by (simp add: estimate_for_def to_size_t_id vec_size_def)

lemma exhausted_holds_zero:
  assumes "11 < length (agents (sim s))" and "h \<le> 10"
    and "trajectory_of s h = Some T" and "positions T \<noteq> []"
    and "maxSteps s < 2 ^ 31" and "int k \<le> maxSteps s"
    and "int (length (positions T)) \<le> int k"
  shows "prefVelocity (agents (sim (tick_start adv s k)) ! h) = (0, 0)"
  using assms(6,7)
proof (induction k)
  case 0
  with assms(4) show ?case by simp
next
  case (Suc k)
  let ?sk = "tick_start adv s k"
  have range: "0 \<le> currentStep ?sk" "currentStep ?sk < 2 ^ 31"
    using Suc.prems(1) assms(5) by simp_all
  have step: "prefVelocity (agents (sim (tick_start adv s (Suc k))) ! h) =
      prefVelocity (agents (prefs_sent ?sk) ! h)"
    using assms(1,2) by (simp add: tick_start_def prefVelocity_after_tick)
  have nth: "agents (prefs_sent ?sk) ! h =
     (case estimate_for ?sk (Some T) of
        None \<Rightarrow> agents (sim ?sk) ! h
      | Some v \<Rightarrow> (agents (sim ?sk) ! h)\<lparr>prefVelocity := v\<rparr>)"
    using agents_prefs_sent_nth [of ?sk h] assms(1-3) by simp
  show ?case
  proof (cases "int (length (positions T)) \<le> int k")
    case True
    then have "estimate_for ?sk (Some T) = None"
      using range by (intro estimate_for_exhausted) simp_all
    moreover have "prefVelocity (agents (sim ?sk) ! h) = (0, 0)"
      using Suc.IH Suc.prems(1) True by simp
    ultimately show ?thesis
      using step nth by simp
  next
    case False
    with Suc.prems(2) have last: "int (length (positions T)) - 1 = int k"
      by simp
    from False obtain v where v: "estimate_for ?sk (Some T) = Some v"
      "calculatePreferredVelocity ?sk 0 T = Inr v"
      using estimate_for_in_range [of ?sk T 0] range by auto
    have "calculatePreferredVelocity ?sk 0 T = Inr (0, 0)"
      using range assms(4) last by (intro estimate_exhausted) simp_all
    with v have "v = (0, 0)" by simp
    with v(1) step nth show ?thesis by simp
  qed
qed

lemma estimate_before_advance:
  assumes "11 < length (agents (sim s))" and "h \<le> 10"
    and "trajectory_of s h = Some T" and "positions T \<noteq> []"
    and "maxSteps s < 2 ^ 31" and "int k < maxSteps s"
  shows "calculatePreferredVelocity (tick_start adv s k) (int h) T =
     Inr (prefVelocity (agents (before_advance adv s k) ! h))"
proof -
  let ?sk = "tick_start adv s k"
  have range: "0 \<le> currentStep ?sk" "currentStep ?sk < 2 ^ 31"
    using assms(5,6) by simp_all
  have nth: "agents (prefs_sent ?sk) ! h =
     (case estimate_for ?sk (Some T) of
        None \<Rightarrow> agents (sim ?sk) ! h
      | Some v \<Rightarrow> (agents (sim ?sk) ! h)\<lparr>prefVelocity := v\<rparr>)"
    using agents_prefs_sent_nth [of ?sk h] assms(1-3) by simp
  show ?thesis
  proof (cases "int (length (positions T)) \<le> int k")
    case True
    then have "estimate_for ?sk (Some T) = None"
      using range by (intro estimate_for_exhausted) simp_all
    moreover have "prefVelocity (agents (sim ?sk) ! h) = (0, 0)"
      using assms True by (intro exhausted_holds_zero) simp_all
    moreover have "calculatePreferredVelocity ?sk (int h) T = Inr (0, 0)"
      using range assms(4) True by (intro estimate_exhausted) simp_all
    ultimately show ?thesis
      using nth by (simp add: before_advance_def)
  next
    case False
    then obtain v where "estimate_for ?sk (Some T) = Some v"
      "calculatePreferredVelocity ?sk (int h) T = Inr v"
      using estimate_for_in_range [of ?sk T "int h"] range by auto
    with nth show ?thesis
      by (simp add: before_advance_def)
  qed
qed

lemma tick_start_Suc:
  "tick_start adv s (Suc k) =
     (tick_start adv s k)\<lparr>sim := doStep adv (before_advance adv s k), currentStep := int k + 1\<rparr>"
  by (simp add: tick_start_def before_advance_def next_tick_def after_tick_def)

text \<open>
  Claim C4. In every tick of the run, when the oracle's advance is invoked, the preferred
  velocity of every registered agent is the one for that tick: for a trajectory-driven
  agent the estimate of its trajectory at the current tick, for the goal agent zero; an
  agent whose trajectory is exhausted holds the preferred velocity zero. For a tick past
  the end of a trajectory the driver sends nothing for that agent: the oracle still holds
  the zero sent at the last sample's tick.
\<close>

theorem preferred_velocities_before_advance:
  assumes "11 < length (agents (sim s))" and "maxSteps s < 2 ^ 31" and "int k < maxSteps s"
    and "h \<le> 10" and "trajectory_of s h = Some T"
    and "positions T \<noteq> []" and "length (positions T) \<le> 2 ^ 64"
  shows "(\<exists>rows. runSimulation adv s = Inr (tick_start adv s (nat (maxSteps s)), rows)) \<and>
     updateAgentPositions (tick_start adv s k) =
       Inr ((tick_start adv s k)\<lparr>sim := before_advance adv s k\<rparr>) \<and>
     tick_start adv s (Suc k) =
       (tick_start adv s k)\<lparr>sim := doStep adv (before_advance adv s k), currentStep := int k + 1\<rparr> \<and>
     calls (sim (tick_start adv s (Suc k))) =
       calls (sim (tick_start adv s k)) @ tick_calls (tick_start adv s k) @ [DoStep] \<and>
     calculatePreferredVelocity (tick_start adv s k) (int h) T =
       Inr (prefVelocity (agents (before_advance adv s k) ! h)) \<and>
     prefVelocity (agents (before_advance adv s k) ! h) =
       (if int k < int (length (positions T)) - 1
        then vec_div (vec_sub (positions T ! (k + 1)) (positions T ! k)) TIME_STEP
        else (0, 0)) \<and>
     prefVelocity (agents (before_advance adv s k) ! 11) = (0, 0)"
proof -
  let ?sk = "tick_start adv s k"
  have run: "\<exists>rows. runSimulation adv s = Inr (tick_start adv s (nat (maxSteps s)), rows)"
    using assms(1,2) by (simp add: runSimulation_closed tick_start_def)
  have upd: "updateAgentPositions ?sk = Inr (?sk\<lparr>sim := before_advance adv s k\<rparr>)"
    unfolding before_advance_def using assms(1-3) by (intro updateAgentPositions_closed) simp_all
  have log: "calls (sim (tick_start adv s (Suc k))) =
      calls (sim ?sk) @ tick_calls ?sk @ [DoStep]"
    by (simp add: tick_start_def calls_next_tick)
  have est: "calculatePreferredVelocity ?sk (int h) T =
      Inr (prefVelocity (agents (before_advance adv s k) ! h))"
    using assms(1,4,5,6,2,3) by (rule estimate_before_advance)
  have "calculatePreferredVelocity ?sk (int h) T =
     (if currentStep ?sk < int (length (positions T)) - 1
      then Inr (vec_div (vec_sub (positions T ! nat (currentStep ?sk + 1))
                                 (positions T ! nat (currentStep ?sk))) TIME_STEP)
      else Inr (0, 0))"
    using assms(2,3,6,7) by (intro estimate_nonempty) simp_all
  with est have val: "prefVelocity (agents (before_advance adv s k) ! h) =
       (if int k < int (length (positions T)) - 1
        then vec_div (vec_sub (positions T ! (k + 1)) (positions T ! k)) TIME_STEP
        else (0, 0))"
    by (simp add: nat_add_distrib split: if_splits)
  have goal: "prefVelocity (agents (before_advance adv s k) ! 11) = (0, 0)"
    unfolding before_advance_def using assms(1) by (intro prefVelocity_goal_prefs_sent) simp
  show ?thesis
    using run upd tick_start_Suc [of adv s k] log est val goal by blast
qed

theorem preferred_velocities_before_advance_witness:
  "11 < length (agents (sim experiment_ready)) \<and> maxSteps experiment_ready < 2 ^ 31 \<and>
   int 499 < maxSteps experiment_ready \<and> (0 :: nat) \<le> 10 \<and>
   trajectory_of experiment_ready 0 = Some (participantData experiment_ready) \<and>
   positions (participantData experiment_ready) \<noteq> [] \<and>
   length (positions (participantData experiment_ready)) \<le> 2 ^ 64 \<and>
   calculatePreferredVelocity (tick_start free_motion experiment_ready 499) (int 0)
       (participantData experiment_ready) =
     Inr (prefVelocity (agents (before_advance free_motion experiment_ready 499) ! 0)) \<and>
   prefVelocity (agents (before_advance free_motion experiment_ready 499) ! 0) = (0, 0) \<and>
   prefVelocity (agents (before_advance free_motion experiment_ready 499) ! 11) = (0, 0)"
proof -
  have len: "length (positions (participantData experiment_ready)) = 500"
    by (simp add: ready_fields(3) loaded_participant_positions)
  have h: "11 < length (agents (sim experiment_ready))" "maxSteps experiment_ready < 2 ^ 31"
    "int 499 < maxSteps experiment_ready" "(0 :: nat) \<le> 10"
    "trajectory_of experiment_ready 0 = Some (participantData experiment_ready)"
    "positions (participantData experiment_ready) \<noteq> []"
    "length (positions (participantData experiment_ready)) \<le> 2 ^ 64"
    using len by (auto simp: ready_fields(1,6) trajectory_of_def)
  show ?thesis
    using h preferred_velocities_before_advance [OF h, of free_motion] len
    by simp
qed

subsection \<open>Every agent is served at every tick of the synthetic run\<close>

text \<open>
  In the synthetic run no trajectory ends before the budget: at each of the 500 ticks the
  driver sends a preferred velocity for each of the twelve agents.
\<close>

lemma sent_calls_in_range:
  assumes "0 \<le> currentStep s" and "currentStep s < 2 ^ 31"
    and "currentStep s < int (length (positions T))"
  shows "length (sent_calls h (estimate_for s (Some T))) = 1"
  using estimate_for_in_range [OF assms, of 0] by (auto simp: sent_calls_def)

lemma synthetic_run_sends_all:
  assumes "k < 500"
  shows "length (tick_calls (tick_start adv experiment_ready k)) = 12"
proof -
  let ?sk = "tick_start adv experiment_ready k"
  have range: "0 \<le> currentStep ?sk" "currentStep ?sk < 2 ^ 31"
    using assms by simp_all
  have "length (positions (participantData experiment_loaded)) = 500"
    by (simp add: loaded_participant_positions)
  then have p: "length (sent_calls 0 (estimate_for ?sk (Some (participantData ?sk)))) = 1"
    using range assms by (intro sent_calls_in_range) (simp_all add: ready_fields(3))
  have a: "length (sent_calls (nat a) (estimate_for ?sk (avatarData ?sk (avatar_key a)))) = 1"
    if "a \<in> set [1..10]" for a
  proof -
    let ?T = "fold (avatar_sample 500 a) [0..499] empty_trajectory"
    have "avatarData ?sk (avatar_key a) = Some ?T"
      using loaded_avatar [OF that] by (simp add: ready_fields(4))
    moreover have "length (positions ?T) = 500"
      by (simp add: fold_avatar_sample_positions)
    ultimately show ?thesis
      using range assms sent_calls_in_range [of ?sk ?T "nat a"] by simp
  qed
  have "map (\<lambda>a. length (sent_calls (nat a) (estimate_for ?sk (avatarData ?sk (avatar_key a)))))
      [1..10] = map (\<lambda>a. 1) [1..10]"
    by (rule map_cong [OF refl]) (rule a)
  then have "length (concat (map (\<lambda>a. sent_calls (nat a)
      (estimate_for ?sk (avatarData ?sk (avatar_key a)))) [1..10])) = 10"
    by (simp add: length_concat comp_def upto_1_10)
  with p show ?thesis
    by (simp add: tick_calls_def)
qed

end
